theory Spec2Isabelle
  imports Main "HOL-Library.Log_Nat"
begin

unbundle bit_operations_syntax

section \<open>Client rate limiter (assets/js/email-config.js, rateLimit)\<close>

text \<open>
  The object literal \<open>rateLimit\<close> holds two mutable number fields. \<open>Date.now()\<close> is an
  integer count of milliseconds, so clock readings are \<open>int\<close>; \<open>attempts\<close> starts at 0
  and is only ever reset to 0 or incremented.
\<close>

record rateLimit =
  attempts :: nat
  lastAttempt :: int

definition fresh :: rateLimit where
  "fresh = \<lparr>attempts = 0, lastAttempt = 0\<rparr>"

text \<open>Lines 118-121: the window-reset branch at the head of \<open>check()\<close>.\<close>

definition window_reset :: "int \<Rightarrow> rateLimit \<Rightarrow> rateLimit" where
  "window_reset now st =
     (if now - lastAttempt st > 60000 then st\<lparr>attempts := 0, lastAttempt := now\<rparr> else st)"

text \<open>
  \<open>check()\<close> with the clock reading passed in. The result is the returned boolean,
  whether \<open>alert(...)\<close> was called, and the fields afterwards.
\<close>

definition check :: "int \<Rightarrow> rateLimit \<Rightarrow> bool \<times> bool \<times> rateLimit" where
  "check now st =
     (let st1 = window_reset now st in
      if attempts st1 \<ge> 5 then (False, True, st1)
      else (True, False, st1\<lparr>attempts := attempts st1 + 1, lastAttempt := now\<rparr>))"

definition allowed :: "bool \<times> bool \<times> rateLimit \<Rightarrow> bool" where
  "allowed r = fst r"

definition after :: "bool \<times> bool \<times> rateLimit \<Rightarrow> rateLimit" where
  "after r = snd (snd r)"

text \<open>Consecutive calls of \<open>check()\<close> at the given clock readings: the fields at the end.\<close>

fun final :: "rateLimit \<Rightarrow> int list \<Rightarrow> rateLimit" where
  "final st [] = st"
| "final st (t # ts) = final (after (check t st)) ts"

text \<open>The value each of those calls returned.\<close>

fun results :: "rateLimit \<Rightarrow> int list \<Rightarrow> bool list" where
  "results st [] = []"
| "results st (t # ts) = allowed (check t st) # results (after (check t st)) ts"

text \<open>The clock readings of the calls that returned \<open>true\<close>.\<close>

fun allowedTimes :: "rateLimit \<Rightarrow> int list \<Rightarrow> int list" where
  "allowedTimes st [] = []"
| "allowedTimes st (t # ts) =
     (if allowed (check t st) then [t] else []) @ allowedTimes (after (check t st)) ts"


section \<open>JavaScript values\<close>

text \<open>
  A JavaScript string is a sequence of UTF-16 code units: a list of integers, each in
  \<open>0..65535\<close>. \<open>js\<close> gives the code units of a literal whose characters are below
  U+0100, which covers every literal of the source. Header values and body fields hold
  arbitrary strings.

  A Number is NaN, an infinity, or a finite double, kept as its exact rational value;
  the sign of zero is not kept (no operation used here tells \<open>-0\<close> from \<open>0\<close>).
\<close>

type_synonym jsstring = "int list"

definition js :: "string \<Rightarrow> jsstring" where
  "js s = map of_char s"

datatype jsnum = NaN | Infinity | NegInfinity | Finite rat

datatype jsval = JUndefined | JNull | JBool bool | JNum jsnum | JStr jsstring | JObject

text \<open>ToBoolean, and the operator \<open>a || b\<close>.\<close>

fun truthy :: "jsval \<Rightarrow> bool" where
  "truthy JUndefined = False"
| "truthy JNull = False"
| "truthy (JBool b) = b"
| "truthy (JNum n) = (n \<noteq> NaN \<and> n \<noteq> Finite 0)"
| "truthy (JStr s) = (s \<noteq> [])"
| "truthy JObject = True"

definition or_js :: "jsval \<Rightarrow> jsval \<Rightarrow> jsval" where
  "or_js a b = (if truthy a then a else b)"

text \<open>\<open>Number.isNaN(x)\<close> and \<open>t > x\<close> for an integer clock reading \<open>t\<close>.\<close>

fun isNaN :: "jsnum \<Rightarrow> bool" where
  "isNaN NaN = True"
| "isNaN x = False"

fun gt_js :: "int \<Rightarrow> jsnum \<Rightarrow> bool" where
  "gt_js t NaN = False"
| "gt_js t Infinity = False"
| "gt_js t NegInfinity = True"
| "gt_js t (Finite r) = (r < of_int t)"

text \<open>\<open>t <= x\<close>, the comparison the specification words the expiry check with.\<close>

fun le_js :: "int \<Rightarrow> jsnum \<Rightarrow> bool" where
  "le_js t NaN = False"
| "le_js t Infinity = True"
| "le_js t NegInfinity = False"
| "le_js t (Finite r) = (of_int t \<le> r)"

text \<open>
  \<open>String.prototype.split\<close> with a separator of one code unit; \<open>colon\<close> is the code
  unit of \<open>:\<close>.
\<close>

fun split_js :: "'a \<Rightarrow> 'a list \<Rightarrow> 'a list list" where
  "split_js sep [] = [[]]"
| "split_js sep (c # cs) =
     (if c = sep then [] # split_js sep cs
      else (case split_js sep cs of [] \<Rightarrow> [[c]] | p # ps \<Rightarrow> (c # p) # ps))"

abbreviation (input) colon :: int where
  "colon \<equiv> 58"

subsection \<open>Number to string and string to Number\<close>

text \<open>
  \<open>Number.prototype.toString\<close> (as used by a template literal) on an integer of
  magnitude below \<open>10^21\<close>: its decimal digits, with a leading minus sign when negative.
\<close>

definition digitChar :: "int \<Rightarrow> int" where
  "digitChar d = 48 + d"

function posToString :: "int \<Rightarrow> jsstring" where
  "posToString n = (if n < 10 then [digitChar n] else posToString (n div 10) @ [digitChar (n mod 10)])"
  by pat_completeness auto
termination
  by (relation "measure nat") auto

declare posToString.simps [simp del]

definition numToString :: "int \<Rightarrow> jsstring" where
  "numToString i = (if i < 0 then of_char CHR ''-'' # posToString (- i) else posToString i)"

text \<open>
  The value of a code unit as a digit in bases up to 16 (\<open>0-9\<close>, \<open>a-f\<close>, \<open>A-F\<close>),
  and of a run of digits of a base.
\<close>

definition digitVal :: "int \<Rightarrow> int option" where
  "digitVal u =
     (if 48 \<le> u \<and> u \<le> 57 then Some (u - 48)
      else if 97 \<le> u \<and> u \<le> 102 then Some (u - 87)
      else if 65 \<le> u \<and> u \<le> 70 then Some (u - 55)
      else None)"

definition isDigit :: "int \<Rightarrow> bool" where
  "isDigit u = (48 \<le> u \<and> u \<le> 57)"

fun digitsVal :: "int \<Rightarrow> int \<Rightarrow> jsstring \<Rightarrow> int option" where
  "digitsVal b acc [] = Some acc"
| "digitsVal b acc (c # cs) =
     (case digitVal c of
        Some d \<Rightarrow> if d < b then digitsVal b (b * acc + d) cs else None
      | None \<Rightarrow> None)"

definition digits :: "int \<Rightarrow> jsstring \<Rightarrow> int option" where
  "digits b s = (if s = [] then None else digitsVal b 0 s)"

text \<open>
  Rounding a rational to the nearest double, ties to even (IEEE 754 binary64: 53
  significant bits, least exponent \<open>-1074\<close>, overflow to an infinity from \<open>2^1024\<close>).
\<close>

definition floorlog2 :: "rat \<Rightarrow> int" where
  "floorlog2 x =
     (let (a, b) = quotient_of x; e = bitlen a - bitlen b
      in if 2 powi e \<le> x then e else e - 1)"

definition roundHalfEven :: "rat \<Rightarrow> int" where
  "roundHalfEven x =
     (let n = \<lfloor>x\<rfloor>; d = x - of_int n
      in if d < 1 / 2 then n else if 1 / 2 < d then n + 1 else if even n then n else n + 1)"

definition toDouble :: "rat \<Rightarrow> jsnum" where
  "toDouble x =
     (if x = 0 then Finite 0
      else
        let q = max (- 1074) (floorlog2 \<bar>x\<bar> - 52);
            y = of_int (roundHalfEven (\<bar>x\<bar> / 2 powi q)) * 2 powi q
        in if 2 ^ 1024 \<le> y then (if 0 < x then Infinity else NegInfinity)
           else Finite (if 0 < x then y else - y))"

text \<open>
  \<open>Number(s)\<close> on a string (ECMA-262 StringToNumber): white space is trimmed; the empty
  string is 0; \<open>0x\<close>, \<open>0o\<close> and \<open>0b\<close> prefix an unsigned integer in base 16, 8 or 2;
  otherwise the string is an optionally signed \<open>Infinity\<close> or decimal literal with
  optional fraction and exponent; anything else is NaN. White space is TAB, LF, VT, FF,
  CR, the space separators (SP, NBSP, U+1680, U+2000 to U+200A, U+202F, U+205F, U+3000),
  U+2028, U+2029 and U+FEFF.
\<close>

definition strWhiteSpace :: "int \<Rightarrow> bool" where
  "strWhiteSpace u =
     (u \<in> set [9, 10, 11, 12, 13, 32, 160, 5760, 8232, 8233, 8239, 8287, 12288, 65279]
      \<or> (8192 \<le> u \<and> u \<le> 8202))"

definition trim_js :: "jsstring \<Rightarrow> jsstring" where
  "trim_js s = rev (dropWhile strWhiteSpace (rev (dropWhile strWhiteSpace s)))"

definition nonDecimal :: "jsstring \<Rightarrow> int option" where
  "nonDecimal s =
     (case s of
        c # x # t \<Rightarrow>
          if c \<noteq> of_char CHR ''0'' then None
          else if x = of_char CHR ''x'' \<or> x = of_char CHR ''X'' then digits 16 t
          else if x = of_char CHR ''o'' \<or> x = of_char CHR ''O'' then digits 8 t
          else if x = of_char CHR ''b'' \<or> x = of_char CHR ''B'' then digits 2 t
          else None
      | _ \<Rightarrow> None)"

definition exponentPart :: "jsstring \<Rightarrow> int option" where
  "exponentPart s =
     (case s of
        [] \<Rightarrow> Some 0
      | c # t \<Rightarrow>
          if c = of_char CHR ''e'' \<or> c = of_char CHR ''E'' then
            (case t of
               [] \<Rightarrow> None
             | d # u \<Rightarrow>
                 if d = of_char CHR ''+'' then digits 10 u
                 else if d = of_char CHR ''-'' then map_option uminus (digits 10 u)
                 else digits 10 t)
          else None)"

definition strUnsignedDecimal :: "jsstring \<Rightarrow> rat option" where
  "strUnsignedDecimal s =
     (let ip = takeWhile isDigit s;
          r1 = dropWhile isDigit s;
          dot = (case r1 of c # t \<Rightarrow> c = of_char CHR ''.'' | [] \<Rightarrow> False);
          fp = (if dot then takeWhile isDigit (tl r1) else []);
          r2 = (if dot then dropWhile isDigit (tl r1) else r1)
      in if ip = [] \<and> fp = [] then None
         else
           (case (digitsVal 10 0 (ip @ fp), exponentPart r2) of
              (Some m, Some e) \<Rightarrow> Some (of_int m * 10 powi (e - int (length fp)))
            | _ \<Rightarrow> None))"

definition strDecimal :: "jsstring \<Rightarrow> jsnum" where
  "strDecimal s =
     (let neg = (case s of c # t \<Rightarrow> c = of_char CHR ''-'' | [] \<Rightarrow> False);
          u = (case s of
                 c # t \<Rightarrow> if c = of_char CHR ''+'' \<or> c = of_char CHR ''-'' then t else s
               | [] \<Rightarrow> s)
      in if u = js ''Infinity'' then (if neg then NegInfinity else Infinity)
         else
           (case strUnsignedDecimal u of
              None \<Rightarrow> NaN
            | Some v \<Rightarrow> toDouble (if neg then - v else v)))"

definition Number_js :: "jsstring \<Rightarrow> jsnum" where
  "Number_js s =
     (let t = trim_js s
      in if t = [] then Finite 0
         else
           (case nonDecimal t of
              Some n \<Rightarrow> toDouble (of_int n)
            | None \<Rightarrow> strDecimal t))"

section \<open>Node.js \<open>crypto\<close> and \<open>Buffer\<close>\<close>

text \<open>
  The platform functions the server calls, after their standards: SHA-256 (FIPS 180-4),
  HMAC (RFC 2104), and Node's hex encoding and decoding of buffers. A byte is an \<open>int\<close>
  in \<open>0..255\<close> and a 32-bit word an \<open>int\<close> in \<open>0..2^32 - 1\<close>, with the wrap-around
  written out as \<open>m32\<close>.
\<close>

type_synonym hstate = "int \<times> int \<times> int \<times> int \<times> int \<times> int \<times> int \<times> int"

definition m32 :: "int \<Rightarrow> int" where
  "m32 x = x mod 4294967296"

definition rotr :: "nat \<Rightarrow> int \<Rightarrow> int" where
  "rotr n x = drop_bit n x OR m32 (push_bit (32 - n) x)"

definition Ch :: "int \<Rightarrow> int \<Rightarrow> int \<Rightarrow> int" where
  "Ch x y z = (x AND y) XOR ((4294967295 - x) AND z)"

definition Maj :: "int \<Rightarrow> int \<Rightarrow> int \<Rightarrow> int" where
  "Maj x y z = (x AND y) XOR (x AND z) XOR (y AND z)"

definition bsig0 :: "int \<Rightarrow> int" where
  "bsig0 x = rotr 2 x XOR rotr 13 x XOR rotr 22 x"

definition bsig1 :: "int \<Rightarrow> int" where
  "bsig1 x = rotr 6 x XOR rotr 11 x XOR rotr 25 x"

definition ssig0 :: "int \<Rightarrow> int" where
  "ssig0 x = rotr 7 x XOR rotr 18 x XOR drop_bit 3 x"

definition ssig1 :: "int \<Rightarrow> int" where
  "ssig1 x = rotr 17 x XOR rotr 19 x XOR drop_bit 10 x"

text \<open>
  The round constants and the initial hash value of SHA-256 (the first 32 bits of the
  fractional parts of the cube roots of the first 64 primes, and of the square roots of
  the first 8), written in decimal.
\<close>

definition K256 :: "int list" where
  "K256 =
    [1116352408, 1899447441, 3049323471, 3921009573, 961987163, 1508970993,
     2453635748, 2870763221, 3624381080, 310598401, 607225278, 1426881987,
     1925078388, 2162078206, 2614888103, 3248222580, 3835390401, 4022224774,
     264347078, 604807628, 770255983, 1249150122, 1555081692, 1996064986,
     2554220882, 2821834349, 2952996808, 3210313671, 3336571891, 3584528711,
     113926993, 338241895, 666307205, 773529912, 1294757372, 1396182291,
     1695183700, 1986661051, 2177026350, 2456956037, 2730485921, 2820302411,
     3259730800, 3345764771, 3516065817, 3600352804, 4094571909, 275423344,
     430227734, 506948616, 659060556, 883997877, 958139571, 1322822218,
     1537002063, 1747873779, 1955562222, 2024104815, 2227730452, 2361852424,
     2428436474, 2756734187, 3204031479, 3329325298]"

definition H256 :: hstate where
  "H256 =
    (1779033703, 3144134277, 1013904242, 2773480762,
     1359893119, 2600822924, 528734635, 1541459225)"

text \<open>The message schedule of one 16-word block, and the 64 rounds over it.\<close>

fun schedule :: "nat \<Rightarrow> int list \<Rightarrow> int list" where
  "schedule 0 w = []"
| "schedule (Suc n) w =
     hd w # schedule n (tl w @ [m32 (ssig1 (w ! 14) + w ! 9 + ssig0 (w ! 1) + w ! 0)])"

fun round1 :: "int \<times> int \<Rightarrow> hstate \<Rightarrow> hstate" where
  "round1 (k, w) (a, b, c, d, e, f, g, h) =
     (let t1 = m32 (h + bsig1 e + Ch e f g + k + w);
          t2 = m32 (bsig0 a + Maj a b c)
      in (m32 (t1 + t2), a, b, c, m32 (d + t1), e, f, g))"

fun add8 :: "hstate \<Rightarrow> hstate \<Rightarrow> hstate" where
  "add8 (a, b, c, d, e, f, g, h) (a', b', c', d', e', f', g', h') =
     (m32 (a + a'), m32 (b + b'), m32 (c + c'), m32 (d + d'),
      m32 (e + e'), m32 (f + f'), m32 (g + g'), m32 (h + h'))"

definition compress :: "int list \<Rightarrow> hstate \<Rightarrow> hstate" where
  "compress block hs = add8 hs (fold round1 (zip K256 (schedule 64 block)) hs)"

text \<open>Padding, big-endian words, and the digest as 32 bytes.\<close>

definition pad :: "int list \<Rightarrow> int list" where
  "pad m = m @ [128] @ replicate ((119 - length m mod 64) mod 64) 0
             @ map (\<lambda>i. drop_bit (8 * i) (8 * int (length m)) mod 256) [7, 6, 5, 4, 3, 2, 1, 0]"

fun be32 :: "int list \<Rightarrow> int list" where
  "be32 (a # b # c # d # bs) = (16777216 * a + 65536 * b + 256 * c + d) # be32 bs"
| "be32 bs = []"

fun blocks :: "nat \<Rightarrow> int list \<Rightarrow> int list list" where
  "blocks 0 ws = []"
| "blocks (Suc n) ws = take 16 ws # blocks n (drop 16 ws)"

definition bytes_of_w32 :: "int \<Rightarrow> int list" where
  "bytes_of_w32 w = [drop_bit 24 w mod 256, drop_bit 16 w mod 256, drop_bit 8 w mod 256, w mod 256]"

fun words_of :: "hstate \<Rightarrow> int list" where
  "words_of (a, b, c, d, e, f, g, h) = [a, b, c, d, e, f, g, h]"

definition sha256 :: "int list \<Rightarrow> int list" where
  "sha256 m =
     (let ws = be32 (pad m)
      in concat (map bytes_of_w32 (words_of (fold compress (blocks (length ws div 16) ws) H256))))"

definition hmac_sha256 :: "int list \<Rightarrow> int list \<Rightarrow> int list" where
  "hmac_sha256 key m =
     (let k0 = (if 64 < length key then sha256 key else key);
          k = k0 @ replicate (64 - length k0) 0
      in sha256 (map (\<lambda>b. b XOR 92) k @ sha256 (map (\<lambda>b. b XOR 54) k @ m)))"

text \<open>
  The UTF-8 bytes of a string, as Node.js writes a string into a buffer: a surrogate
  pair is one code point of four bytes, and a surrogate without its partner is replaced
  by U+FFFD.
\<close>

fun utf8 :: "jsstring \<Rightarrow> int list" where
  "utf8 [] = []"
| "utf8 (u # us) =
     (if u < 128 then u # utf8 us
      else if u < 2048 then (192 + u div 64) # (128 + u mod 64) # utf8 us
      else if 55296 \<le> u \<and> u < 56320 then
        (case us of
           [] \<Rightarrow> [239, 191, 189]
         | v # vs \<Rightarrow>
             if 56320 \<le> v \<and> v < 57344 then
               (let cp = 65536 + (u - 55296) * 1024 + (v - 56320)
                in (240 + cp div 262144) # (128 + cp div 4096 mod 64)
                     # (128 + cp div 64 mod 64) # (128 + cp mod 64) # utf8 vs)
             else 239 # 191 # 189 # utf8 us)
      else if 56320 \<le> u \<and> u < 57344 then 239 # 191 # 189 # utf8 us
      else (224 + u div 4096) # (128 + u div 64 mod 64) # (128 + u mod 64) # utf8 us)"

text \<open>\<open>buf.toString('hex')\<close> and \<open>hmac.digest('hex')\<close>: two lowercase digits a byte.\<close>

definition hex_digit :: "int \<Rightarrow> int" where
  "hex_digit n = (if n < 10 then 48 + n else 87 + n)"

definition hex_byte :: "int \<Rightarrow> jsstring" where
  "hex_byte b = [hex_digit (b div 16), hex_digit (b mod 16)]"

definition toHex :: "int list \<Rightarrow> jsstring" where
  "toHex bs = concat (map hex_byte bs)"

text \<open>
  \<open>crypto.createHmac('sha256', key).update(payload).digest('hex')\<close> with string key
  and payload.
\<close>

definition hmacHex :: "jsstring \<Rightarrow> jsstring \<Rightarrow> jsstring" where
  "hmacHex key payload = toHex (hmac_sha256 (utf8 key) (utf8 payload))"

text \<open>
  \<open>Buffer.from(s, 'hex')\<close>: the decoder reads the low byte of each code unit; pairs of
  hex digits of either case are decoded until the first pair that is not two hex digits,
  and a trailing single unit is dropped.
\<close>

definition unhex :: "int \<Rightarrow> int option" where
  "unhex u = digitVal (u mod 256)"

fun hexDecode :: "jsstring \<Rightarrow> int list" where
  "hexDecode (a # b # rest) =
     (case (unhex a, unhex b) of
        (Some x, Some y) \<Rightarrow> (16 * x + y) # hexDecode rest
      | _ \<Rightarrow> [])"
| "hexDecode s = []"

text \<open>
  \<open>crypto.timingSafeEqual(a, b)\<close>: a \<open>RangeError\<close> when the byte lengths differ,
  otherwise whether the buffers are equal.
\<close>

datatype exn = RangeError | Error string

definition timingSafeEqual :: "int list \<Rightarrow> int list \<Rightarrow> exn + bool" where
  "timingSafeEqual a b = (if length a \<noteq> length b then Inl RangeError else Inr (a = b))"

text \<open>
  \<open>crypto.randomBytes(n)\<close> draws the next \<open>n\<close> bytes from the platform's random
  generator. The generator is the sequence of bytes it yields, which nothing in the
  program determines, and the count of bytes drawn so far.
\<close>

record rng =
  source :: "nat \<Rightarrow> int"
  drawn :: nat

definition randomBytes :: "nat \<Rightarrow> rng \<Rightarrow> int list \<times> rng" where
  "randomBytes n g =
     (map (\<lambda>i. source g (drawn g + i) mod 256) [0..<n], g\<lparr>drawn := drawn g + n\<rparr>)"

section \<open>The server (server/index.js)\<close>

subsection \<open>Start-up: the CSRF secret\<close>

text \<open>
  Lines 11-21. \<open>process.env\<close> is read for \<open>NODE_ENV\<close> and \<open>CSRF_SECRET\<close>; an
  environment variable is absent or a string. \<open>crypto.randomBytes(32)\<close> is called only
  when \<open>CSRF_SECRET\<close> is absent or empty. Start-up either throws, or goes on with the
  secret, the warnings written to the console and the random generator as it was left.
\<close>

record env =
  NODE_ENV :: "jsstring option"
  CSRF_SECRET :: "jsstring option"

record started =
  secret :: jsstring
  warnings :: "string list"
  generator :: rng

definition CSRF_TOKEN_EXPIRY_MS :: int where
  "CSRF_TOKEN_EXPIRY_MS = 30 * 60 * 1000"

definition secret_msg :: string where
  "secret_msg = ''CSRF_SECRET is not set; using ephemeral secret (development only).''"

definition env_val :: "jsstring option \<Rightarrow> jsval" where
  "env_val v = (case v of None \<Rightarrow> JUndefined | Some s \<Rightarrow> JStr s)"

definition startup :: "env \<Rightarrow> rng \<Rightarrow> exn + started" where
  "startup e g =
     (let isProduction = (NODE_ENV e = Some (js ''production''));
          random32 = randomBytes 32 g;
          csrf_secret =
            (case or_js (env_val (CSRF_SECRET e)) (JStr (toHex (fst random32))) of
               JStr s \<Rightarrow> s
             | _ \<Rightarrow> []);
          g' = (if truthy (env_val (CSRF_SECRET e)) then g else snd random32)
      in if \<not> truthy (env_val (CSRF_SECRET e)) then
           (if isProduction then Inl (Error secret_msg)
            else Inr \<lparr>secret = csrf_secret, warnings = [secret_msg], generator = g'\<rparr>)
         else Inr \<lparr>secret = csrf_secret, warnings = [], generator = g'\<rparr>)"

subsection \<open>Requests and responses\<close>

text \<open>
  Of a request the middleware reads the header map and the parsed body, which is absent
  or an object whose fields hold any JSON value. The outcome is a call of
  \<open>next()\<close>, a response with a status and a JSON object, or an exception.
\<close>

record request =
  headers :: "string \<rightharpoonup> jsstring"
  body :: "(string \<rightharpoonup> jsval) option"

datatype outcome = Next | Respond nat "(string \<times> string) list" | Throw exn

definition header :: "request \<Rightarrow> string \<Rightarrow> jsval" where
  "header req name = (case headers req name of None \<Rightarrow> JUndefined | Some s \<Rightarrow> JStr s)"

text \<open>\<open>req.body?.name\<close>.\<close>

definition body_field :: "request \<Rightarrow> string \<Rightarrow> jsval" where
  "body_field req name =
     (case body req of
        None \<Rightarrow> JUndefined
      | Some b \<Rightarrow> (case b name of None \<Rightarrow> JUndefined | Some v \<Rightarrow> v))"

subsection \<open>verifyCsrfToken and issueCsrfToken\<close>

text \<open>Lines 43-46: the candidate token.\<close>

definition candidate :: "request \<Rightarrow> jsval" where
  "candidate req =
     or_js (or_js (header req ''x-csrf-token'') (body_field req ''_token''))
       (body_field req ''csrfToken'')"

definition denied :: outcome where
  "denied = Respond 403 [(''error'', ''Invalid or missing CSRF token'')]"

text \<open>
  Lines 57-61: the signature comparison, on the string length first and then on the
  decoded buffers.
\<close>

definition signaturesMatch :: "jsstring \<Rightarrow> jsstring \<Rightarrow> exn + bool" where
  "signaturesMatch signature expectedSignature =
     (if length signature = length expectedSignature
      then timingSafeEqual (hexDecode signature) (hexDecode expectedSignature)
      else Inr False)"

text \<open>
  Lines 42-69, with the process secret and the reading of \<open>Date.now()\<close> passed in.
  The destructuring takes the first three elements of the split; a missing element is
  \<open>undefined\<close>, which the emptiness test rejects as it does the empty string.
\<close>

definition verifyToken :: "jsstring \<Rightarrow> int \<Rightarrow> jsstring \<Rightarrow> outcome" where
  "verifyToken csrf_secret now token =
     (case split_js colon token of
        nonce # expiryStr # signature # rest \<Rightarrow>
          if nonce = [] \<or> expiryStr = [] \<or> signature = [] then denied
          else
            (let payload = nonce @ js '':'' @ expiryStr;
                 expectedSignature = hmacHex csrf_secret payload
             in case signaturesMatch signature expectedSignature of
                  Inl e \<Rightarrow> Throw e
                | Inr m \<Rightarrow>
                    (let expiry = Number_js expiryStr
                     in if \<not> m \<or> isNaN expiry \<or> gt_js now expiry then denied else Next))
      | _ \<Rightarrow> denied)"

definition verifyCsrfToken :: "jsstring \<Rightarrow> int \<Rightarrow> request \<Rightarrow> outcome" where
  "verifyCsrfToken csrf_secret now req =
     (case candidate req of
        JStr token \<Rightarrow> if token = [] then denied else verifyToken csrf_secret now token
      | _ \<Rightarrow> denied)"

text \<open>
  Lines 71-77, with the secret, the random generator and the reading of \<open>Date.now()\<close>
  passed in; the result is the token and the generator after the 16 bytes were drawn.
\<close>

definition issueCsrfToken :: "jsstring \<Rightarrow> rng \<Rightarrow> int \<Rightarrow> jsstring \<times> rng" where
  "issueCsrfToken csrf_secret g now =
     (let random16 = randomBytes 16 g;
          nonce = toHex (fst random16);
          expiresAt = now + CSRF_TOKEN_EXPIRY_MS;
          payload = nonce @ js '':'' @ numToString expiresAt;
          signature = hmacHex csrf_secret payload
      in (payload @ js '':'' @ signature, snd random16))"

section \<open>Vocabulary of the properties\<close>

text \<open>
  A string over \<open>0-9a-f\<close> (the pattern \<open>/^[0-9a-f]+$/\<close> when non-empty), a list of
  byte values, and the lower-case hex digit the hex decoder reads a code unit as: its low
  byte, with \<open>A-F\<close> in lower case.
\<close>

definition isLowerHex :: "int \<Rightarrow> bool" where
  "isLowerHex u = ((48 \<le> u \<and> u \<le> 57) \<or> (97 \<le> u \<and> u \<le> 102))"

definition lowerHex :: "jsstring \<Rightarrow> bool" where
  "lowerHex s = list_all isLowerHex s"

definition isByte :: "int \<Rightarrow> bool" where
  "isByte b = (0 \<le> b \<and> b < 256)"

definition hexLower :: "int \<Rightarrow> int" where
  "hexLower u = (let b = u mod 256 in if 65 \<le> b \<and> b \<le> 70 then b + 32 else b)"

text \<open>A request that carries the token in the header \<open>x-csrf-token\<close> and has no body.\<close>

definition header_request :: "jsstring \<Rightarrow> request" where
  "header_request t = \<lparr>headers = [''x-csrf-token'' \<mapsto> t], body = None\<rparr>"

text \<open>A request that carries the token in the body field \<open>_token\<close> and has no header.\<close>

definition body_request :: "jsstring \<Rightarrow> request" where
  "body_request t = \<lparr>headers = Map.empty, body = Some [''_token'' \<mapsto> JStr t]\<rparr>"

text \<open>A generator for worked examples: it yields the bytes 0, 1, 2, ...\<close>

definition example_rng :: rng where
  "example_rng = \<lparr>source = (\<lambda>i. int i), drawn = 0\<rparr>"

text \<open>
  What \<open>verifyToken\<close> answers once the first three fields \<open>n\<close>, \<open>e\<close> and \<open>sg\<close>
  of the token are known to be non-empty, in terms of the fields alone (proved equal to
  the code in \<open>verifyToken_split\<close>).
\<close>

definition judge :: "jsstring \<Rightarrow> int \<Rightarrow> jsstring \<Rightarrow> jsstring \<Rightarrow> jsstring \<Rightarrow> outcome" where
  "judge k now n e sg =
     (if length sg \<noteq> 64 then denied
      else if length (hexDecode sg) \<noteq> 32 then Throw RangeError
      else if map hexLower sg = hmacHex k (n @ js '':'' @ e)
              \<and> \<not> isNaN (Number_js e) \<and> \<not> gt_js now (Number_js e)
           then Next else denied)"

definition typeof_string :: "jsval \<Rightarrow> bool" where
  "typeof_string v = (case v of JStr s \<Rightarrow> True | _ \<Rightarrow> False)"

section \<open>Rate limiter: properties\<close>

lemma check_rejected_unchanged:
  "\<not> allowed (check now st) \<Longrightarrow> after (check now st) = st"
  by (auto simp: check_def allowed_def after_def window_reset_def Let_def split: if_splits)

lemma check_allowed_stamp:
  "allowed (check now st) \<Longrightarrow> lastAttempt (after (check now st)) = now"
  by (auto simp: check_def allowed_def after_def window_reset_def Let_def split: if_splits)

lemma lastAttempt_final:
  "lastAttempt (final st ts) = last (lastAttempt st # allowedTimes st ts)"
proof (induction ts arbitrary: st)
  case Nil
  show ?case by simp
next
  case (Cons t ts)
  show ?case
  proof (cases "allowed (check t st)")
    case True
    then show ?thesis
      using Cons.IH [of "after (check t st)"] by (simp add: check_allowed_stamp)
  next
    case False
    then show ?thesis
      using Cons.IH [of "after (check t st)"] by (simp add: check_rejected_unchanged)
  qed
qed

lemma check_after_window:
  "60000 < now - lastAttempt st \<Longrightarrow> check now st = (True, False, \<lparr>attempts = 1, lastAttempt = now\<rparr>)"
  by (simp add: check_def window_reset_def Let_def)

text \<open>
  C3. From the fresh counter, five calls at nondecreasing clock readings that lie, with
  the sixth, inside one 60-second window all return true; the sixth returns false and
  leaves the counter where the fifth left it (attempts = 5); a call more than 60 seconds
  after the sixth returns true and leaves attempts = 1.
\<close>

theorem check_five_then_locked:
  assumes "t1 \<le> t2" "t2 \<le> t3" "t3 \<le> t4" "t4 \<le> t5" "t5 \<le> t6"
    and "t6 - t1 \<le> 60000" and "60000 < t7 - t6"
  shows "results fresh [t1, t2, t3, t4, t5, t6, t7] = [True, True, True, True, True, False, True]
       \<and> final fresh [t1, t2, t3, t4, t5] = \<lparr>attempts = 5, lastAttempt = t5\<rparr>
       \<and> final fresh [t1, t2, t3, t4, t5, t6] = \<lparr>attempts = 5, lastAttempt = t5\<rparr>
       \<and> final fresh [t1, t2, t3, t4, t5, t6, t7] = \<lparr>attempts = 1, lastAttempt = t7\<rparr>"
proof -
  have g: "t2 - t1 \<le> 60000" "t3 - t2 \<le> 60000" "t4 - t3 \<le> 60000" "t5 - t4 \<le> 60000"
    "t6 - t5 \<le> 60000" "60000 < t7 - t5"
    using assms by simp_all
  have s1: "check t1 fresh = (True, False, \<lparr>attempts = 1, lastAttempt = t1\<rparr>)"
    by (simp add: check_def window_reset_def fresh_def Let_def)
  have s2: "check t2 \<lparr>attempts = 1, lastAttempt = t1\<rparr> = (True, False, \<lparr>attempts = 2, lastAttempt = t2\<rparr>)"
    using g(1) by (simp add: check_def window_reset_def Let_def)
  have s3: "check t3 \<lparr>attempts = 2, lastAttempt = t2\<rparr> = (True, False, \<lparr>attempts = 3, lastAttempt = t3\<rparr>)"
    using g(2) by (simp add: check_def window_reset_def Let_def)
  have s4: "check t4 \<lparr>attempts = 3, lastAttempt = t3\<rparr> = (True, False, \<lparr>attempts = 4, lastAttempt = t4\<rparr>)"
    using g(3) by (simp add: check_def window_reset_def Let_def)
  have s5: "check t5 \<lparr>attempts = 4, lastAttempt = t4\<rparr> = (True, False, \<lparr>attempts = 5, lastAttempt = t5\<rparr>)"
    using g(4) by (simp add: check_def window_reset_def Let_def)
  have s6: "check t6 \<lparr>attempts = 5, lastAttempt = t5\<rparr> = (False, True, \<lparr>attempts = 5, lastAttempt = t5\<rparr>)"
    using g(5) by (simp add: check_def window_reset_def Let_def)
  have s7: "check t7 \<lparr>attempts = 5, lastAttempt = t5\<rparr> = (True, False, \<lparr>attempts = 1, lastAttempt = t7\<rparr>)"
    using g(6) by (simp add: check_def window_reset_def Let_def)
  have f5: "final fresh [t1, t2, t3, t4, t5] = \<lparr>attempts = 5, lastAttempt = t5\<rparr>"
    by (simp only: final.simps s1 s2 s3 s4 s5 after_def snd_conv)
  have f6: "final fresh [t1, t2, t3, t4, t5, t6] = \<lparr>attempts = 5, lastAttempt = t5\<rparr>"
    by (simp only: final.simps s1 s2 s3 s4 s5 s6 after_def snd_conv)
  have f7: "final fresh [t1, t2, t3, t4, t5, t6, t7] = \<lparr>attempts = 1, lastAttempt = t7\<rparr>"
    by (simp only: final.simps s1 s2 s3 s4 s5 s6 s7 after_def snd_conv)
  have r: "results fresh [t1, t2, t3, t4, t5, t6, t7] = [True, True, True, True, True, False, True]"
    by (simp only: results.simps s1 s2 s3 s4 s5 s6 s7 after_def allowed_def snd_conv fst_conv)
  show ?thesis
    using r f5 f6 f7 by (intro conjI)
qed

theorem check_five_then_locked_witness:
  "results fresh [100000, 100001, 100002, 100003, 100004, 100005, 160006]
     = [True, True, True, True, True, False, True]
   \<and> final fresh [100000, 100001, 100002, 100003, 100004] = \<lparr>attempts = 5, lastAttempt = 100004\<rparr>
   \<and> final fresh [100000, 100001, 100002, 100003, 100004, 100005] = \<lparr>attempts = 5, lastAttempt = 100004\<rparr>
   \<and> final fresh [100000, 100001, 100002, 100003, 100004, 100005, 160006] = \<lparr>attempts = 1, lastAttempt = 160006\<rparr>"
  by (rule check_five_then_locked) simp_all

text \<open>
  C10. A call of \<open>check()\<close> that returns false leaves both fields as they were (the
  reset branch cannot have fired on such a call). Hence after any sequence of calls the
  field \<open>lastAttempt\<close> is the clock reading of the last call that returned true, however
  many rejected calls came after it, and a call more than 60 seconds later than that
  reading returns true.
\<close>

theorem check_rejected_frame:
  "(\<not> allowed (check now st) \<longrightarrow>
      attempts (after (check now st)) = attempts st
    \<and> lastAttempt (after (check now st)) = lastAttempt st
    \<and> after (check now st) = st
    \<and> \<not> 60000 < now - lastAttempt st)
   \<and> lastAttempt (final st ts) = last (lastAttempt st # allowedTimes st ts)
   \<and> (60000 < now' - last (lastAttempt st # allowedTimes st ts) \<longrightarrow>
        allowed (check now' (final st ts)))"
proof (intro conjI impI)
  assume r: "\<not> allowed (check now st)"
  then show u: "after (check now st) = st"
    by (rule check_rejected_unchanged)
  show "attempts (after (check now st)) = attempts st"
    by (simp add: u)
  show "lastAttempt (after (check now st)) = lastAttempt st"
    by (simp add: u)
  show "\<not> 60000 < now - lastAttempt st"
    using r by (auto simp: check_after_window allowed_def)
next
  show "lastAttempt (final st ts) = last (lastAttempt st # allowedTimes st ts)"
    by (rule lastAttempt_final)
next
  assume "60000 < now' - last (lastAttempt st # allowedTimes st ts)"
  then have "60000 < now' - lastAttempt (final st ts)"
    by (simp only: lastAttempt_final)
  then show "allowed (check now' (final st ts))"
    by (simp add: check_after_window allowed_def)
qed

theorem check_rejected_frame_witness:
  "\<not> allowed (check 100005 \<lparr>attempts = 5, lastAttempt = 100004\<rparr>)
   \<and> after (check 100005 \<lparr>attempts = 5, lastAttempt = 100004\<rparr>)
       = \<lparr>attempts = 5, lastAttempt = 100004\<rparr>
   \<and> allowedTimes \<lparr>attempts = 4, lastAttempt = 100003\<rparr> [100004, 100005, 130000, 160004] = [100004]
   \<and> allowed (check 160005 (final \<lparr>attempts = 4, lastAttempt = 100003\<rparr> [100004, 100005, 130000, 160004]))"
proof -
  have a: "\<not> allowed (check 100005 \<lparr>attempts = 5, lastAttempt = 100004\<rparr>)"
    by (simp add: check_def window_reset_def Let_def allowed_def)
  have t: "allowedTimes \<lparr>attempts = 4, lastAttempt = 100003\<rparr> [100004, 100005, 130000, 160004] = [100004]"
    by code_simp
  have b: "(60000::int) < 160005 - last (lastAttempt \<lparr>attempts = 4, lastAttempt = 100003\<rparr>
              # allowedTimes \<lparr>attempts = 4, lastAttempt = 100003\<rparr> [100004, 100005, 130000, 160004])"
    unfolding t by simp
  from check_rejected_frame
    [of 100005 "\<lparr>attempts = 5, lastAttempt = 100004\<rparr>" "[]" 0]
  have c: "after (check 100005 \<lparr>attempts = 5, lastAttempt = 100004\<rparr>)
       = \<lparr>attempts = 5, lastAttempt = 100004\<rparr>"
    using a by blast
  from check_rejected_frame
    [of 0 "\<lparr>attempts = 4, lastAttempt = 100003\<rparr>" "[100004, 100005, 130000, 160004]" 160005]
  have d: "allowed (check 160005 (final \<lparr>attempts = 4, lastAttempt = 100003\<rparr> [100004, 100005, 130000, 160004]))"
    using b by blast
  show ?thesis
    using a c t d by (intro conjI)
qed




section \<open>Strings of code units\<close>

lemma js_Nil [simp]: "js s = [] \<longleftrightarrow> s = []"
  by (simp add: js_def)

lemma length_js [simp]: "length (js s) = length s"
  by (simp add: js_def)

lemma js_inject [simp]: "js a = js b \<longleftrightarrow> a = b"
proof -
  have "inj (of_char :: char \<Rightarrow> int)"
    by (rule injI) simp
  then show ?thesis
    by (simp add: js_def inj_map_eq_map)
qed

lemma js_join: "js a @ js b = js (a @ b)"
  by (simp add: js_def)

lemma js_colon: "js '':'' = [colon]"
  by (simp add: js_def)

lemma colon_in_js [simp]: "colon \<in> set (js s) \<longleftrightarrow> CHR '':'' \<in> set s"
proof -
  have "(of_char c :: int) = 58 \<longleftrightarrow> c = CHR '':''" for c
    using of_char_eq_iff [of c "CHR '':''", where ?'a = int] by simp
  then show ?thesis
    by (auto simp: js_def image_iff)
qed

section \<open>Hex digits, digests and buffers\<close>

lemma unhex_hex_digit: "0 \<le> n \<Longrightarrow> n < 16 \<Longrightarrow> unhex (hex_digit n) = Some n"
  by (simp add: unhex_def digitVal_def hex_digit_def)

lemma isLowerHex_hex_digit: "0 \<le> n \<Longrightarrow> n < 16 \<Longrightarrow> isLowerHex (hex_digit n)"
  by (simp add: isLowerHex_def hex_digit_def)

lemma isLowerHex_not_colon: "isLowerHex c \<Longrightarrow> c \<noteq> colon"
  by (auto simp: isLowerHex_def)

lemma isLowerHex_low_byte: "isLowerHex c \<Longrightarrow> c mod 256 = c"
  by (auto simp: isLowerHex_def)

lemma isLowerHex_unhex: "isLowerHex c \<Longrightarrow> \<exists>v. unhex c = Some v \<and> 0 \<le> v \<and> v < 16"
  by (frule isLowerHex_low_byte) (auto simp: isLowerHex_def unhex_def digitVal_def)

lemma unhex_range: "unhex c = Some v \<Longrightarrow> 0 \<le> v \<and> v < 16"
  by (auto simp: unhex_def digitVal_def split: if_splits)

lemma hexLower_low_byte: "hexLower c mod 256 = hexLower c"
proof -
  have "0 \<le> c mod 256" "c mod 256 < 256"
    by simp_all
  then show ?thesis
    by (auto simp: hexLower_def Let_def)
qed

lemma unhex_hexLower: "unhex (hexLower c) = unhex c"
  by (auto simp: unhex_def hexLower_low_byte) (auto simp: hexLower_def Let_def digitVal_def)

lemma hexLower_lower: "unhex c = Some v \<Longrightarrow> isLowerHex (hexLower c)"
  by (auto simp: unhex_def digitVal_def hexLower_def isLowerHex_def Let_def split: if_splits)

lemma hexLower_id: "isLowerHex c \<Longrightarrow> hexLower c = c"
  by (frule isLowerHex_low_byte) (auto simp: hexLower_def isLowerHex_def Let_def)

lemma unhex_inj_lower:
  assumes "isLowerHex a" "isLowerHex b" "unhex a = unhex b"
  shows "a = b"
  using assms isLowerHex_low_byte [of a] isLowerHex_low_byte [of b]
  by (auto simp: isLowerHex_def unhex_def digitVal_def split: if_splits)

lemma unhex_eq_iff_hexLower:
  assumes "isLowerHex a"
  shows "unhex c = unhex a \<longleftrightarrow> hexLower c = a"
proof
  assume h: "unhex c = unhex a"
  obtain v where v: "unhex a = Some v"
    using isLowerHex_unhex [OF assms] by blast
  have "isLowerHex (hexLower c)"
    using h v by (simp add: hexLower_lower)
  moreover have "unhex (hexLower c) = unhex a"
    using h by (simp add: unhex_hexLower)
  ultimately show "hexLower c = a"
    using assms by (blast intro: unhex_inj_lower)
next
  assume "hexLower c = a"
  then show "unhex c = unhex a"
    using unhex_hexLower [of c] by simp
qed

lemma lowerHex_no_colon: "lowerHex s \<Longrightarrow> colon \<notin> set s"
  using isLowerHex_not_colon by (auto simp: lowerHex_def list_all_iff)

lemma lowerHex_append: "lowerHex (a @ b) \<longleftrightarrow> lowerHex a \<and> lowerHex b"
  by (simp add: lowerHex_def)

lemma byte_nibbles:
  assumes "isByte b"
  shows "0 \<le> b div 16" "b div 16 < 16" "0 \<le> b mod 16" "b mod 16 < 16"
  using assms by (auto simp: isByte_def)

lemma lowerHex_hex_byte: "isByte b \<Longrightarrow> lowerHex (hex_byte b)"
  by (simp add: hex_byte_def lowerHex_def isLowerHex_hex_digit byte_nibbles)

lemma lowerHex_toHex: "list_all isByte bs \<Longrightarrow> lowerHex (toHex bs)"
  by (induction bs) (simp_all add: toHex_def lowerHex_append lowerHex_hex_byte, simp add: lowerHex_def)

lemma length_toHex: "length (toHex bs) = 2 * length bs"
  by (induction bs) (simp_all add: toHex_def hex_byte_def)

lemma toHex_Cons: "toHex (b # bs) = hex_digit (b div 16) # hex_digit (b mod 16) # toHex bs"
  by (simp add: toHex_def hex_byte_def)

lemma hexDecode_toHex: "list_all isByte bs \<Longrightarrow> hexDecode (toHex bs) = bs"
proof (induction bs)
  case Nil
  show ?case by (simp add: toHex_def)
next
  case (Cons b bs)
  from Cons.prems have b: "isByte b" and bs: "list_all isByte bs"
    by simp_all
  have hi: "unhex (hex_digit (b div 16)) = Some (b div 16)"
    by (intro unhex_hex_digit byte_nibbles [OF b])
  have lo: "unhex (hex_digit (b mod 16)) = Some (b mod 16)"
    by (intro unhex_hex_digit byte_nibbles [OF b])
  show ?case
    using Cons.IH [OF bs] by (simp add: toHex_Cons hi lo)
qed

lemma length_hexDecode_lower:
  "lowerHex s \<Longrightarrow> length (hexDecode s) = length s div 2"
proof (induction s rule: hexDecode.induct)
  case (1 a b rest)
  then have "isLowerHex a" "isLowerHex b" "lowerHex rest"
    by (simp_all add: lowerHex_def)
  then show ?case
    using 1 isLowerHex_unhex [of a] isLowerHex_unhex [of b] by auto
qed simp_all

lemma length_bytes_concat: "length (concat (map bytes_of_w32 ws)) = 4 * length ws"
  by (induction ws) (simp_all add: bytes_of_w32_def)

lemma isByte_bytes_concat: "list_all isByte (concat (map bytes_of_w32 ws))"
  by (induction ws) (simp_all add: bytes_of_w32_def isByte_def)

lemma length_words_of: "length (words_of hs) = 8"
  by (induction hs rule: words_of.induct) simp

lemma length_sha256: "length (sha256 m) = 32"
  by (simp add: sha256_def Let_def length_bytes_concat length_words_of)

lemma isByte_sha256: "list_all isByte (sha256 m)"
  by (simp add: sha256_def Let_def isByte_bytes_concat)

lemma length_hmacHex: "length (hmacHex k p) = 64"
  by (simp add: hmacHex_def hmac_sha256_def Let_def length_toHex length_sha256)

lemma lowerHex_hmacHex: "lowerHex (hmacHex k p)"
  by (simp add: hmacHex_def hmac_sha256_def Let_def lowerHex_toHex isByte_sha256)

lemma hexDecode_eq_iff:
  "length sg = length ex \<Longrightarrow> lowerHex ex \<Longrightarrow> even (length ex) \<Longrightarrow>
   hexDecode sg = hexDecode ex \<longleftrightarrow> map hexLower sg = ex"
proof (induction ex arbitrary: sg rule: hexDecode.induct)
  case (1 a b rest)
  from "1.prems"(1) obtain a' b' rest' where sg: "sg = a' # b' # rest'"
    and len: "length rest' = length rest"
    by (cases sg; cases "tl sg") auto
  from "1.prems"(2) have la: "isLowerHex a" and lb: "isLowerHex b" and lr: "lowerHex rest"
    by (simp_all add: lowerHex_def)
  from "1.prems"(3) have ev: "even (length rest)"
    by simp
  obtain x y where x: "unhex a = Some x" "0 \<le> x" "x < 16" and y: "unhex b = Some y" "0 \<le> y" "y < 16"
    using isLowerHex_unhex [OF la] isLowerHex_unhex [OF lb] by blast
  have ih: "hexDecode rest' = hexDecode rest \<longleftrightarrow> map hexLower rest' = rest"
    using "1.IH" [OF refl x(1) y(1) len lr ev] by simp
  show ?case
  proof (cases "unhex a'")
    case None
    then have "hexLower a' \<noteq> a"
      using unhex_eq_iff_hexLower [OF la, of a'] x by simp
    then show ?thesis
      using None x y by (simp add: sg)
  next
    case (Some x')
    note xa = this
    show ?thesis
    proof (cases "unhex b'")
      case None
      then have "hexLower b' \<noteq> b"
        using unhex_eq_iff_hexLower [OF lb, of b'] y by simp
      then show ?thesis
        using None xa x y by (simp add: sg)
    next
      case (Some y')
      have rx: "0 \<le> x'" "x' < 16" and ry: "0 \<le> y'" "y' < 16"
        using unhex_range [OF xa] unhex_range [OF Some] by simp_all
      have val: "16 * x' + y' = 16 * x + y \<longleftrightarrow> x' = x \<and> y' = y"
      proof
        assume e: "16 * x' + y' = 16 * x + y"
        then have "(16 * x' + y') mod 16 = (16 * x + y) mod 16"
          by simp
        then have "y' = y"
          using ry y(2,3) by simp
        with e show "x' = x \<and> y' = y"
          by simp
      next
        assume "x' = x \<and> y' = y"
        then show "16 * x' + y' = 16 * x + y"
          by simp
      qed
      have ea: "x' = x \<longleftrightarrow> hexLower a' = a"
        using unhex_eq_iff_hexLower [OF la, of a'] xa x by simp
      have eb: "y' = y \<longleftrightarrow> hexLower b' = b"
        using unhex_eq_iff_hexLower [OF lb, of b'] Some y by simp
      show ?thesis
        using ih val ea eb by (simp add: sg xa Some x y)
    qed
  qed
qed simp_all

section \<open>Splitting a token and judging its fields\<close>

lemma split_js_nosep: "sep \<notin> set s \<Longrightarrow> split_js sep s = [s]"
  by (induction s) auto

lemma split_js_append:
  "sep \<notin> set a \<Longrightarrow> split_js sep (a @ sep # b) = a # split_js sep b"
  by (induction a) auto

lemma length_split_js: "length (split_js sep s) = Suc (count_list s sep)"
  by (induction s) (auto split: list.splits)

lemma split_js_three:
  assumes "sep \<notin> set a" "sep \<notin> set b" "sep \<notin> set c"
  shows "split_js sep (a @ sep # b @ sep # c) = [a, b, c]"
  using assms by (simp add: split_js_append split_js_nosep)

lemma split_js_more:
  assumes "sep \<notin> set a" "sep \<notin> set b" "sep \<notin> set c"
  shows "split_js sep (a @ sep # b @ sep # c @ sep # x) = a # b # c # split_js sep x"
  using assms by (simp add: split_js_append)

lemma signaturesMatch_hmac:
  "signaturesMatch sg (hmacHex k p) =
     (if length sg \<noteq> 64 then Inr False
      else if length (hexDecode sg) \<noteq> 32 then Inl RangeError
      else Inr (map hexLower sg = hmacHex k p))"
proof -
  have l: "length (hexDecode (hmacHex k p)) = 32"
    by (simp add: length_hexDecode_lower lowerHex_hmacHex length_hmacHex)
  have "hexDecode sg = hexDecode (hmacHex k p) \<longleftrightarrow> map hexLower sg = hmacHex k p"
    if "length sg = 64"
    using that by (intro hexDecode_eq_iff) (simp_all add: lowerHex_hmacHex length_hmacHex)
  then show ?thesis
    by (simp add: signaturesMatch_def timingSafeEqual_def l length_hmacHex)
qed

lemma verifyToken_split:
  assumes "split_js colon token = n # e # sg # rest" "n \<noteq> []" "e \<noteq> []" "sg \<noteq> []"
  shows "verifyToken k now token = judge k now n e sg"
  using assms by (simp add: verifyToken_def judge_def Let_def signaturesMatch_hmac)

lemma verifyToken_fields:
  assumes "n \<noteq> []" "e \<noteq> []" "sg \<noteq> []"
    and "colon \<notin> set n" "colon \<notin> set e" "colon \<notin> set sg"
  shows "verifyToken k now (n @ js '':'' @ e @ js '':'' @ sg) = judge k now n e sg"
proof -
  have "split_js colon (n @ js '':'' @ e @ js '':'' @ sg) = n # e # sg # []"
    using assms(4-6) by (simp add: split_js_three js_colon)
  then show ?thesis
    using assms(1-3) by (rule verifyToken_split)
qed

lemma verifyToken_fields_more:
  assumes "n \<noteq> []" "e \<noteq> []" "sg \<noteq> []"
    and "colon \<notin> set n" "colon \<notin> set e" "colon \<notin> set sg"
  shows "verifyToken k now (n @ js '':'' @ e @ js '':'' @ sg @ js '':'' @ x) = judge k now n e sg"
proof -
  have "split_js colon (n @ js '':'' @ e @ js '':'' @ sg @ js '':'' @ x) = n # e # sg # split_js colon x"
    using assms(4-6) by (simp add: split_js_more js_colon)
  then show ?thesis
    using assms(1-3) by (rule verifyToken_split)
qed

lemma verifyToken_short:
  "length (split_js colon token) < 3 \<Longrightarrow> verifyToken k now token = denied"
  by (auto simp: verifyToken_def split: list.splits)

lemma verifyToken_empty_field:
  "[] \<in> set (take 3 (split_js colon token)) \<Longrightarrow> verifyToken k now token = denied"
  by (auto simp: verifyToken_def split: list.splits)

lemma verifyToken_outcomes:
  "verifyToken k now token = Next \<or> verifyToken k now token = denied
   \<or> verifyToken k now token = Throw RangeError"
  by (auto simp: verifyToken_def Let_def signaturesMatch_def timingSafeEqual_def
      split: list.splits sum.splits if_splits)

section \<open>Random bytes and nonces\<close>

lemma length_randomBytes: "length (fst (randomBytes n g)) = n"
  by (simp add: randomBytes_def)

lemma isByte_randomBytes: "list_all isByte (fst (randomBytes n g))"
  by (simp add: randomBytes_def list_all_iff isByte_def)

lemma snd_randomBytes: "snd (randomBytes n g) = g\<lparr>drawn := drawn g + n\<rparr>"
  by (simp add: randomBytes_def)

lemma randomBytes_any:
  assumes "list_all isByte bs"
  shows "fst (randomBytes (length bs) \<lparr>source = (\<lambda>i. bs ! i), drawn = 0\<rparr>) = bs"
proof -
  have "bs ! i mod 256 = bs ! i" if "i < length bs" for i
    using assms that by (simp add: list_all_length isByte_def)
  then show ?thesis
    by (auto simp: randomBytes_def intro: nth_equalityI)
qed

lemma hex_digit_unhex:
  assumes "isLowerHex a" "unhex a = Some x"
  shows "hex_digit x = a"
  using assms isLowerHex_low_byte [of a]
  by (auto simp: isLowerHex_def unhex_def digitVal_def hex_digit_def split: if_splits)

lemma hex_byte_unhex:
  assumes "isLowerHex a" "isLowerHex b" "unhex a = Some x" "unhex b = Some y"
  shows "hex_byte (16 * x + y) = [a, b]"
proof -
  have x: "0 \<le> x" "x < 16" and y: "0 \<le> y" "y < 16"
    using unhex_range [OF assms(3)] unhex_range [OF assms(4)] by simp_all
  have "(16 * x + y) div 16 = x" "(16 * x + y) mod 16 = y"
    using x y by simp_all
  then show ?thesis
    using hex_digit_unhex [OF assms(1,3)] hex_digit_unhex [OF assms(2,4)]
    by (simp add: hex_byte_def)
qed

lemma toHex_hexDecode: "lowerHex s \<Longrightarrow> even (length s) \<Longrightarrow> toHex (hexDecode s) = s"
proof (induction s rule: hexDecode.induct)
  case (1 a b rest)
  from "1.prems"(1) have la: "isLowerHex a" and lb: "isLowerHex b" and lr: "lowerHex rest"
    by (simp_all add: lowerHex_def)
  obtain x y where x: "unhex a = Some x" and y: "unhex b = Some y"
    using isLowerHex_unhex [OF la] isLowerHex_unhex [OF lb] by blast
  have "toHex (hexDecode rest) = rest"
    using "1.IH" [OF refl x y lr] "1.prems"(2) by simp
  then show ?case
    using hex_byte_unhex [OF la lb x y] by (simp add: x y toHex_def)
qed (simp_all add: toHex_def)

lemma isByte_hexDecode: "list_all isByte (hexDecode s)"
proof (induction s rule: hexDecode.induct)
  case (1 a b rest)
  show ?case
  proof (cases "unhex a")
    case None
    then show ?thesis by simp
  next
    case (Some x)
    note xa = this
    show ?thesis
    proof (cases "unhex b")
      case None
      then show ?thesis by (simp add: xa)
    next
      case (Some y)
      have "isByte (16 * x + y)"
        using unhex_range [OF xa] unhex_range [OF Some] by (simp add: isByte_def)
      then show ?thesis
        using "1.IH" [OF refl xa Some] by (simp add: xa Some)
    qed
  qed
qed simp_all

lemma nonce_bijection:
  assumes "length s = 32" "lowerHex s"
  shows "\<exists>!bs. length bs = 16 \<and> list_all isByte bs \<and> toHex bs = s"
proof (rule ex1I [of _ "hexDecode s"])
  show "length (hexDecode s) = 16 \<and> list_all isByte (hexDecode s) \<and> toHex (hexDecode s) = s"
    using assms by (simp add: length_hexDecode_lower isByte_hexDecode toHex_hexDecode)
next
  fix bs
  assume "length bs = 16 \<and> list_all isByte bs \<and> toHex bs = s"
  then show "bs = hexDecode s"
    using hexDecode_toHex [of bs] by auto
qed

section \<open>Numbers: rounding and the round trip through a string\<close>

lemma roundHalfEven_of_int: "roundHalfEven (of_int k) = k"
  by (simp add: roundHalfEven_def)

lemma bitlen_one: "bitlen 1 = 1"
  by (simp add: bitlen_alt_def)

lemma floorlog2_of_int:
  assumes "0 < a"
  shows "floorlog2 (of_int a) = bitlen a - 1"
proof -
  have b: "1 \<le> bitlen a"
    using assms by (simp add: bitlen_alt_def)
  have "(2::int) ^ nat (bitlen a - 1) \<le> a"
    using bitlen_bounds [OF assms] by simp
  then have "(of_int ((2::int) ^ nat (bitlen a - 1)) :: rat) \<le> of_int a"
    by (simp only: of_int_le_iff)
  then have "(2::rat) powi (bitlen a - 1) \<le> of_int a"
    using b by (simp add: power_int_def)
  then show ?thesis
    by (simp add: floorlog2_def quotient_of_int bitlen_one)
qed

lemma bitlen_le_53:
  assumes "0 < a" "a < 2 ^ 53"
  shows "bitlen a \<le> 53"
proof (rule ccontr)
  assume "\<not> bitlen a \<le> 53"
  then have "53 \<le> nat (bitlen a - 1)"
    by simp
  then have "(2::int) ^ 53 \<le> 2 ^ nat (bitlen a - 1)"
    by (intro power_increasing) simp_all
  also have "\<dots> \<le> a"
    using bitlen_bounds [OF assms(1)] by simp
  finally show False
    using assms(2) by simp
qed

lemma toDouble_pos_int:
  assumes "0 < a" "a < 2 ^ 53"
  shows "toDouble (of_int a) = Finite (of_int a)"
    and "toDouble (- of_int a) = Finite (- of_int a)"
proof -
  define m where "m = nat (53 - bitlen a)"
  have b1: "1 \<le> bitlen a"
    using assms(1) by (simp add: bitlen_alt_def)
  have b2: "bitlen a \<le> 53"
    using assms by (rule bitlen_le_53)
  note b = b1 b2
  have q: "max (- 1074) (floorlog2 (of_int a) - 52) = - int m"
    using b assms(1) by (simp add: floorlog2_of_int m_def)
  have p: "(2::rat) powi (- int m) = 1 / 2 ^ m"
    by (simp add: power_int_minus field_simps)
  have d: "(of_int a :: rat) / (2 powi (- int m)) = of_int (a * 2 ^ m)"
    by (simp add: p)
  have y: "(of_int (roundHalfEven ((of_int a :: rat) / (2 powi (- int m)))) :: rat) * 2 powi (- int m)
             = of_int a"
    by (simp only: d roundHalfEven_of_int) (simp add: p)
  have lt: "\<not> (2::rat) ^ 1024 \<le> of_int a"
  proof -
    have "a < (2::int) ^ 1024"
      using assms(2) by (rule less_trans) simp
    then have "(of_int a :: rat) < of_int ((2::int) ^ 1024)"
      by (simp only: of_int_less_iff)
    then show ?thesis
      by simp
  qed
  have nz: "(of_int a :: rat) \<noteq> 0" and pos: "(0::rat) < of_int a"
    using assms(1) by simp_all
  have ab: "\<bar>of_int a :: rat\<bar> = of_int a" "\<bar>- of_int a :: rat\<bar> = of_int a"
    using assms(1) by simp_all
  show "toDouble (of_int a) = Finite (of_int a)"
    unfolding toDouble_def Let_def ab q y using nz pos lt by simp
  show "toDouble (- of_int a) = Finite (- of_int a)"
    unfolding toDouble_def Let_def ab q y using nz pos lt by simp
qed

lemma toDouble_int:
  assumes "\<bar>i\<bar> < 2 ^ 53"
  shows "toDouble (of_int i) = Finite (of_int i)"
proof -
  consider "i = 0" | "0 < i" | "i < 0"
    by linarith
  then show ?thesis
  proof cases
    case 1
    then show ?thesis by (simp add: toDouble_def)
  next
    case 2
    then show ?thesis
      using assms toDouble_pos_int(1) [of i] by simp
  next
    case 3
    then have "toDouble (- of_int (- i)) = Finite (- of_int (- i))"
      using assms by (intro toDouble_pos_int(2)) simp_all
    then show ?thesis
      by simp
  qed
qed

lemma digitVal_digitChar: "0 \<le> d \<Longrightarrow> d < 10 \<Longrightarrow> digitVal (digitChar d) = Some d"
  by (simp add: digitVal_def digitChar_def)

lemma isDigit_digitChar: "0 \<le> d \<Longrightarrow> d < 10 \<Longrightarrow> isDigit (digitChar d)"
  by (simp add: isDigit_def digitChar_def)

lemma posToString_digits: "0 \<le> n \<Longrightarrow> list_all isDigit (posToString n)"
proof (induction n rule: posToString.induct)
  case (1 n)
  show ?case
  proof (cases "n < 10")
    case True
    then show ?thesis
      using "1.prems" by (subst posToString.simps) (simp add: isDigit_digitChar)
  next
    case False
    then have "list_all isDigit (posToString (n div 10))"
      using "1.IH" "1.prems" by simp
    then show ?thesis
      using False by (subst posToString.simps) (simp add: isDigit_digitChar)
  qed
qed

lemma posToString_ne: "posToString n \<noteq> []"
  by (subst posToString.simps) simp

lemma digitsVal_append:
  "digitsVal b acc (xs @ ys) =
     (case digitsVal b acc xs of None \<Rightarrow> None | Some a \<Rightarrow> digitsVal b a ys)"
  by (induction xs arbitrary: acc) (auto split: option.splits)

lemma digitsVal_posToString: "0 \<le> n \<Longrightarrow> digitsVal 10 0 (posToString n) = Some n"
proof (induction n rule: posToString.induct)
  case (1 n)
  show ?case
  proof (cases "n < 10")
    case True
    then show ?thesis
      using "1.prems" by (subst posToString.simps) (simp add: digitVal_digitChar)
  next
    case False
    then have "digitsVal 10 0 (posToString (n div 10)) = Some (n div 10)"
      using "1.IH" "1.prems" by simp
    then show ?thesis
      using False by (subst posToString.simps) (simp add: digitsVal_append digitVal_digitChar)
  qed
qed

lemma isDigit_not_space: "isDigit c \<Longrightarrow> \<not> strWhiteSpace c"
  by (auto simp: isDigit_def strWhiteSpace_def)

lemma trim_js_id:
  assumes "s \<noteq> []" "\<not> strWhiteSpace (hd s)" "\<not> strWhiteSpace (last s)"
  shows "trim_js s = s"
proof -
  have a: "dropWhile strWhiteSpace s = s"
    using assms(1,2) by (cases s) simp_all
  have b: "dropWhile strWhiteSpace (rev s) = rev s"
    using assms(1,3) by (cases "rev s") (simp_all add: last_rev [symmetric] hd_rev)
  show ?thesis
    by (simp add: trim_js_def a b)
qed

lemma nonDecimal_digits:
  assumes "list_all isDigit s"
  shows "nonDecimal s = None"
proof (cases s)
  case Nil
  then show ?thesis
    by (simp add: nonDecimal_def)
next
  case (Cons c t)
  show ?thesis
  proof (cases t)
    case Nil
    then show ?thesis
      by (simp add: nonDecimal_def Cons)
  next
    case (Cons x u)
    then have "isDigit x"
      using assms \<open>s = c # t\<close> by simp
    then show ?thesis
      by (auto simp: nonDecimal_def \<open>s = c # t\<close> Cons isDigit_def)
  qed
qed

text \<open>The code unit of the minus sign is 45.\<close>

lemma nonDecimal_minus: "nonDecimal (45 # s) = None"
  by (simp add: nonDecimal_def split: list.splits)

lemma strUnsignedDecimal_digits:
  assumes "list_all isDigit s" "s \<noteq> []" "digitsVal 10 0 s = Some m"
  shows "strUnsignedDecimal s = Some (of_int m)"
proof -
  have t: "takeWhile isDigit s = s" and d: "dropWhile isDigit s = []"
    using assms(1) by (simp_all add: list_all_iff)
  show ?thesis
    using assms(2,3) by (simp add: strUnsignedDecimal_def Let_def t d exponentPart_def)
qed

lemma digits_not_Infinity: "list_all isDigit s \<Longrightarrow> s \<noteq> js ''Infinity''"
  by (auto simp: isDigit_def js_def)

lemma strDecimal_digits:
  assumes "list_all isDigit s" "s \<noteq> []" "digitsVal 10 0 s = Some m"
  shows "strDecimal s = toDouble (of_int m)"
    and "strDecimal (45 # s) = toDouble (- of_int m)"
proof -
  obtain c t where s: "s = c # t"
    using assms(2) by (cases s) auto
  have c: "c \<noteq> of_char CHR ''+''" "c \<noteq> of_char CHR ''-''"
    using assms(1) by (auto simp: s isDigit_def)
  have neg: "(case s of c # t \<Rightarrow> c = of_char CHR ''-'' | [] \<Rightarrow> False) = False"
    using c by (simp add: s)
  have u: "(case s of c # t \<Rightarrow> if c = of_char CHR ''+'' \<or> c = of_char CHR ''-'' then t else s | [] \<Rightarrow> s) = s"
    using c by (simp add: s)
  show "strDecimal s = toDouble (of_int m)"
    unfolding strDecimal_def Let_def neg u
    using digits_not_Infinity [OF assms(1)] strUnsignedDecimal_digits [OF assms]
    by simp
  show "strDecimal (45 # s) = toDouble (- of_int m)"
    using digits_not_Infinity [OF assms(1)] strUnsignedDecimal_digits [OF assms]
    by (simp add: strDecimal_def Let_def)
qed

lemma Number_js_numToString: "Number_js (numToString i) = toDouble (of_int i)"
proof (cases "i < 0")
  case False
  then have n: "0 \<le> i"
    by simp
  let ?s = "posToString i"
  have dg: "list_all isDigit ?s" and ne: "?s \<noteq> []" and v: "digitsVal 10 0 ?s = Some i"
    using n by (simp_all add: posToString_digits posToString_ne digitsVal_posToString)
  have "isDigit (hd ?s)" "isDigit (last ?s)"
    using dg ne by (simp_all add: list_all_iff)
  then have tr: "trim_js ?s = ?s"
    using ne by (intro trim_js_id) (simp_all add: isDigit_not_space)
  show ?thesis
    using False ne
    by (simp add: Number_js_def numToString_def Let_def tr nonDecimal_digits [OF dg]
        strDecimal_digits(1) [OF dg ne v])
next
  case True
  then have n: "0 \<le> - i"
    by simp
  let ?s = "posToString (- i)"
  have dg: "list_all isDigit ?s" and ne: "?s \<noteq> []" and v: "digitsVal 10 0 ?s = Some (- i)"
    using n by (simp_all add: posToString_digits posToString_ne digitsVal_posToString)
  have "isDigit (last ?s)"
    using dg ne by (simp add: list_all_iff)
  then have "\<not> strWhiteSpace (last (45 # ?s))"
    using ne by (simp add: isDigit_not_space)
  moreover have "\<not> strWhiteSpace (hd (45 # ?s))"
    by (simp add: strWhiteSpace_def)
  ultimately have tr: "trim_js (45 # ?s) = 45 # ?s"
    by (intro trim_js_id) simp_all
  show ?thesis
    using True
    by (simp add: Number_js_def numToString_def Let_def tr nonDecimal_minus
        strDecimal_digits(2) [OF dg ne v])
qed

lemma Number_js_issued:
  assumes "\<bar>i\<bar> < 2 ^ 53"
  shows "Number_js (numToString i) = Finite (of_int i)"
  by (simp only: Number_js_numToString toDouble_int [OF assms])

lemma digits_no_colon: "list_all isDigit s \<Longrightarrow> colon \<notin> set s"
  by (auto simp: list_all_iff isDigit_def)

lemma numToString_plain:
  "numToString i \<noteq> [] \<and> colon \<notin> set (numToString i)"
proof (cases "i < 0")
  case True
  then have "list_all isDigit (posToString (- i))"
    by (intro posToString_digits) simp
  then show ?thesis
    using True by (simp add: numToString_def digits_no_colon)
next
  case False
  then have "list_all isDigit (posToString i)"
    by (intro posToString_digits) simp
  then show ?thesis
    using False by (simp add: numToString_def digits_no_colon posToString_ne)
qed

section \<open>A worked token\<close>

text \<open>
  The token \<open>issueCsrfToken\<close> mints under the secret \<open>test-secret\<close> from a generator
  that yields the bytes \<open>00 01 02 ...\<close> at \<open>Date.now() = 1700000000000\<close>, with its
  HMAC-SHA256 evaluated, and the signature of the same nonce with expiry field
  \<open>Infinity\<close>. The first lemma is the one-block test vector of FIPS 180-4.
\<close>

lemma sha256_abc:
  "toHex (sha256 (utf8 (js ''abc'')))
     = js ''ba7816bf8f01cfea414140de5dae2223b00361a396177a9cb410ff61f20015ad''"
  by code_simp

lemma hmac_example:
  "hmacHex (js ''test-secret'') (js ''000102030405060708090a0b0c0d0e0f:1700001800000'')
     = js ''7d39fe06f38327ed7922f167213e30050374b023fcfffca9aba23f4bc450f294''"
  by code_simp

lemma hmac_example_Infinity:
  "hmacHex (js ''test-secret'') (js ''000102030405060708090a0b0c0d0e0f:Infinity'')
     = js ''4ba3aa4698f34a182b12e349fefd97c9161b6bd0f7eea9a80b2390fce3d01ca1''"
  by code_simp

lemma numToString_example: "numToString 1700001800000 = js ''1700001800000''"
  by code_simp

lemma randomBytes_example:
  "fst (randomBytes 16 example_rng) = [0, 1, 2, 3, 4, 5, 6, 7, 8, 9, 10, 11, 12, 13, 14, 15]"
  by code_simp

lemma toHex_example:
  "toHex [0, 1, 2, 3, 4, 5, 6, 7, 8, 9, 10, 11, 12, 13, 14, 15] = js ''000102030405060708090a0b0c0d0e0f''"
  by code_simp

lemma Number_js_example: "Number_js (js ''1700001800000'') = Finite 1700001800000"
  using Number_js_issued [of 1700001800000] by (simp add: numToString_example)

lemma Number_js_Infinity: "Number_js (js ''Infinity'') = Infinity"
  by code_simp

lemma issue_example:
  "fst (issueCsrfToken (js ''test-secret'') example_rng 1700000000000)
     = js ''000102030405060708090a0b0c0d0e0f:1700001800000:7d39fe06f38327ed7922f167213e30050374b023fcfffca9aba23f4bc450f294''"
proof -
  have p: "js ''000102030405060708090a0b0c0d0e0f'' @ js '':'' @ js ''1700001800000'' = js ''000102030405060708090a0b0c0d0e0f:1700001800000''"
    by (simp add: js_join)
  have "fst (issueCsrfToken (js ''test-secret'') example_rng 1700000000000)
     = js ''000102030405060708090a0b0c0d0e0f:1700001800000'' @ js '':'' @ js ''7d39fe06f38327ed7922f167213e30050374b023fcfffca9aba23f4bc450f294''"
    by (simp add: issueCsrfToken_def Let_def CSRF_TOKEN_EXPIRY_MS_def randomBytes_example
        toHex_example numToString_example p hmac_example)
  then show ?thesis
    by (simp add: js_join)
qed

section \<open>Deciding a request\<close>

lemma candidate_header_request: "t \<noteq> [] \<Longrightarrow> candidate (header_request t) = JStr t"
  by (simp add: candidate_def header_request_def header_def or_js_def)

lemma verifyCsrfToken_candidate:
  "candidate req = JStr t \<Longrightarrow> t \<noteq> [] \<Longrightarrow> verifyCsrfToken k now req = verifyToken k now t"
  by (simp add: verifyCsrfToken_def)

lemma verifyCsrfToken_not_string:
  "\<not> typeof_string (candidate req) \<Longrightarrow> verifyCsrfToken k now req = denied"
  by (cases "candidate req") (simp_all add: verifyCsrfToken_def typeof_string_def)

lemma verifyCsrfToken_empty:
  "candidate req = JStr [] \<Longrightarrow> verifyCsrfToken k now req = denied"
  by (simp add: verifyCsrfToken_def)

lemma matching_signature:
  assumes "map hexLower sg = hmacHex k p"
  shows "length sg = 64" "length (hexDecode sg) = 32"
proof -
  show l: "length sg = 64"
    using length_hmacHex [of k p] assms [symmetric] by simp
  have "hexDecode sg = hexDecode (hmacHex k p)"
    using assms l by (subst hexDecode_eq_iff) (simp_all add: lowerHex_hmacHex length_hmacHex)
  then show "length (hexDecode sg) = 32"
    by (simp add: length_hexDecode_lower lowerHex_hmacHex length_hmacHex)
qed

lemma not_gt_js: "\<not> isNaN x \<Longrightarrow> \<not> gt_js t x \<longleftrightarrow> le_js t x"
  by (cases x) auto

lemma judge_Next_iff:
  "judge k now n e sg = Next \<longleftrightarrow>
     map hexLower sg = hmacHex k (n @ js '':'' @ e)
     \<and> \<not> isNaN (Number_js e) \<and> le_js now (Number_js e)"
proof (cases "map hexLower sg = hmacHex k (n @ js '':'' @ e)")
  case True
  then show ?thesis
    using matching_signature [OF True] not_gt_js [of "Number_js e" now]
    by (auto simp: judge_def denied_def)
next
  case False
  then show ?thesis
    by (simp add: judge_def denied_def)
qed

lemma judge_Finite:
  assumes "map hexLower sg = hmacHex k (n @ js '':'' @ e)" "Number_js e = Finite r"
  shows "judge k now n e sg = (if of_int now \<le> r then Next else denied)"
  using assms matching_signature [OF assms(1)] by (auto simp: judge_def)

lemma judge_Infinity:
  assumes "map hexLower sg = hmacHex k (n @ js '':'' @ e)" "Number_js e = Infinity"
  shows "judge k now n e sg = Next"
  using assms matching_signature [OF assms(1)] by (simp add: judge_def)

lemma map_hexLower_lower: "lowerHex s \<Longrightarrow> map hexLower s = s"
  by (induction s) (simp_all add: lowerHex_def hexLower_id)

lemma example_judge:
  "judge (js ''test-secret'') now (js ''000102030405060708090a0b0c0d0e0f'') (js ''1700001800000'') (js ''7d39fe06f38327ed7922f167213e30050374b023fcfffca9aba23f4bc450f294'')
     = (if now \<le> 1700001800000 then Next else denied)"
proof -
  have l: "map hexLower (js ''7d39fe06f38327ed7922f167213e30050374b023fcfffca9aba23f4bc450f294'') = js ''7d39fe06f38327ed7922f167213e30050374b023fcfffca9aba23f4bc450f294''"
    using lowerHex_hmacHex [of "js ''test-secret''" "js ''000102030405060708090a0b0c0d0e0f:1700001800000''"]
    by (simp only: hmac_example map_hexLower_lower)
  have p: "js ''000102030405060708090a0b0c0d0e0f'' @ js '':'' @ js ''1700001800000'' = js ''000102030405060708090a0b0c0d0e0f:1700001800000''"
    by (simp add: js_join)
  have m: "map hexLower (js ''7d39fe06f38327ed7922f167213e30050374b023fcfffca9aba23f4bc450f294'') = hmacHex (js ''test-secret'') (js ''000102030405060708090a0b0c0d0e0f'' @ js '':'' @ js ''1700001800000'')"
    by (simp only: l p hmac_example)
  show ?thesis
    using judge_Finite [OF m Number_js_example, of now] by simp
qed

lemma example_verify:
  "verifyToken (js ''test-secret'') now (js ''000102030405060708090a0b0c0d0e0f:1700001800000:7d39fe06f38327ed7922f167213e30050374b023fcfffca9aba23f4bc450f294'')
     = (if now \<le> 1700001800000 then Next else denied)"
proof -
  have t: "js ''000102030405060708090a0b0c0d0e0f:1700001800000:7d39fe06f38327ed7922f167213e30050374b023fcfffca9aba23f4bc450f294'' = js ''000102030405060708090a0b0c0d0e0f'' @ js '':'' @ js ''1700001800000'' @ js '':'' @ js ''7d39fe06f38327ed7922f167213e30050374b023fcfffca9aba23f4bc450f294''"
    by (simp add: js_join)
  show ?thesis
    by (subst t, subst verifyToken_fields) (simp_all add: example_judge)
qed

lemma example_verify_more:
  "verifyToken (js ''test-secret'') now (js ''000102030405060708090a0b0c0d0e0f:1700001800000:7d39fe06f38327ed7922f167213e30050374b023fcfffca9aba23f4bc450f294:extra'')
     = (if now \<le> 1700001800000 then Next else denied)"
proof -
  have t: "js ''000102030405060708090a0b0c0d0e0f:1700001800000:7d39fe06f38327ed7922f167213e30050374b023fcfffca9aba23f4bc450f294:extra'' = js ''000102030405060708090a0b0c0d0e0f'' @ js '':'' @ js ''1700001800000'' @ js '':'' @ js ''7d39fe06f38327ed7922f167213e30050374b023fcfffca9aba23f4bc450f294'' @ js '':'' @ js ''extra''"
    by (simp add: js_join)
  show ?thesis
    by (subst t, subst verifyToken_fields_more) (simp_all add: example_judge)
qed

lemma example_verify_upper:
  "verifyToken (js ''test-secret'') now (js ''000102030405060708090a0b0c0d0e0f:1700001800000:7D39FE06F38327ED7922F167213E30050374B023FCFFFCA9ABA23F4BC450F294'')
     = (if now \<le> 1700001800000 then Next else denied)"
proof -
  have t: "js ''000102030405060708090a0b0c0d0e0f:1700001800000:7D39FE06F38327ED7922F167213E30050374B023FCFFFCA9ABA23F4BC450F294'' = js ''000102030405060708090a0b0c0d0e0f'' @ js '':'' @ js ''1700001800000'' @ js '':'' @ js ''7D39FE06F38327ED7922F167213E30050374B023FCFFFCA9ABA23F4BC450F294''"
    by (simp add: js_join)
  have l: "map hexLower (js ''7D39FE06F38327ED7922F167213E30050374B023FCFFFCA9ABA23F4BC450F294'') = js ''7d39fe06f38327ed7922f167213e30050374b023fcfffca9aba23f4bc450f294''"
    by code_simp
  have p: "js ''000102030405060708090a0b0c0d0e0f'' @ js '':'' @ js ''1700001800000'' = js ''000102030405060708090a0b0c0d0e0f:1700001800000''"
    by (simp add: js_join)
  have m: "map hexLower (js ''7D39FE06F38327ED7922F167213E30050374B023FCFFFCA9ABA23F4BC450F294'') = hmacHex (js ''test-secret'') (js ''000102030405060708090a0b0c0d0e0f'' @ js '':'' @ js ''1700001800000'')"
    by (simp only: l p hmac_example)
  have j: "judge (js ''test-secret'') now (js ''000102030405060708090a0b0c0d0e0f'') (js ''1700001800000'') (js ''7D39FE06F38327ED7922F167213E30050374B023FCFFFCA9ABA23F4BC450F294'') = (if now \<le> 1700001800000 then Next else denied)"
    using judge_Finite [OF m Number_js_example, of now] by simp
  show ?thesis
    by (subst t, subst verifyToken_fields) (simp_all add: j)
qed

lemma example_verify_Infinity:
  "verifyToken (js ''test-secret'') now (js ''000102030405060708090a0b0c0d0e0f:Infinity:4ba3aa4698f34a182b12e349fefd97c9161b6bd0f7eea9a80b2390fce3d01ca1'') = Next"
proof -
  have t: "js ''000102030405060708090a0b0c0d0e0f:Infinity:4ba3aa4698f34a182b12e349fefd97c9161b6bd0f7eea9a80b2390fce3d01ca1'' = js ''000102030405060708090a0b0c0d0e0f'' @ js '':'' @ js ''Infinity'' @ js '':'' @ js ''4ba3aa4698f34a182b12e349fefd97c9161b6bd0f7eea9a80b2390fce3d01ca1''"
    by (simp add: js_join)
  have l: "map hexLower (js ''4ba3aa4698f34a182b12e349fefd97c9161b6bd0f7eea9a80b2390fce3d01ca1'') = js ''4ba3aa4698f34a182b12e349fefd97c9161b6bd0f7eea9a80b2390fce3d01ca1''"
    using lowerHex_hmacHex [of "js ''test-secret''" "js ''000102030405060708090a0b0c0d0e0f:Infinity''"]
    by (simp only: hmac_example_Infinity map_hexLower_lower)
  have p: "js ''000102030405060708090a0b0c0d0e0f'' @ js '':'' @ js ''Infinity'' = js ''000102030405060708090a0b0c0d0e0f:Infinity''"
    by (simp add: js_join)
  have m: "map hexLower (js ''4ba3aa4698f34a182b12e349fefd97c9161b6bd0f7eea9a80b2390fce3d01ca1'') = hmacHex (js ''test-secret'') (js ''000102030405060708090a0b0c0d0e0f'' @ js '':'' @ js ''Infinity'')"
    by (simp only: l p hmac_example_Infinity)
  have j: "judge (js ''test-secret'') now (js ''000102030405060708090a0b0c0d0e0f'') (js ''Infinity'') (js ''4ba3aa4698f34a182b12e349fefd97c9161b6bd0f7eea9a80b2390fce3d01ca1'') = Next"
    using m Number_js_Infinity by (rule judge_Infinity)
  show ?thesis
    by (subst t, subst verifyToken_fields) (simp_all add: j)
qed

lemma candidate_body_request: "t \<noteq> [] \<Longrightarrow> candidate (body_request t) = JStr t"
  by (simp add: candidate_def body_request_def header_def body_field_def or_js_def)

text \<open>
  The signature of the worked token with its first digit \<open>7\<close> (code unit 55)
  replaced by the code unit 311 (U+0137), whose low byte is 55.
\<close>

lemma low_byte_signature:
  "map hexLower (311 # js ''d39fe06f38327ed7922f167213e30050374b023fcfffca9aba23f4bc450f294'') = hmacHex (js ''test-secret'') (js ''000102030405060708090a0b0c0d0e0f'' @ js '':'' @ js ''1700001800000'')"
proof -
  have l: "map hexLower (311 # js ''d39fe06f38327ed7922f167213e30050374b023fcfffca9aba23f4bc450f294'') = js ''7d39fe06f38327ed7922f167213e30050374b023fcfffca9aba23f4bc450f294''"
    by code_simp
  have p: "js ''000102030405060708090a0b0c0d0e0f'' @ js '':'' @ js ''1700001800000'' = js ''000102030405060708090a0b0c0d0e0f:1700001800000''"
    by (simp add: js_join)
  show ?thesis
    by (simp only: l p hmac_example)
qed

lemma example_verify_low_byte:
  "verifyToken (js ''test-secret'') now (js ''000102030405060708090a0b0c0d0e0f:1700001800000:'' @ 311 # js ''d39fe06f38327ed7922f167213e30050374b023fcfffca9aba23f4bc450f294'')
     = (if now \<le> 1700001800000 then Next else denied)"
proof -
  have t: "js ''000102030405060708090a0b0c0d0e0f:1700001800000:'' @ 311 # js ''d39fe06f38327ed7922f167213e30050374b023fcfffca9aba23f4bc450f294'' = js ''000102030405060708090a0b0c0d0e0f'' @ js '':'' @ js ''1700001800000'' @ js '':'' @ (311 # js ''d39fe06f38327ed7922f167213e30050374b023fcfffca9aba23f4bc450f294'')"
    by (simp add: js_def)
  have j: "judge (js ''test-secret'') now (js ''000102030405060708090a0b0c0d0e0f'') (js ''1700001800000'') (311 # js ''d39fe06f38327ed7922f167213e30050374b023fcfffca9aba23f4bc450f294'') = (if now \<le> 1700001800000 then Next else denied)"
    using judge_Finite [OF low_byte_signature Number_js_example, of now] by simp
  show ?thesis
    by (subst t, subst verifyToken_fields) (simp_all add: j)
qed

lemma denied_not_Next: "denied \<noteq> Next"
  by (simp add: denied_def)

lemma verifyToken_Next_iff:
  "verifyToken k now t = Next \<longleftrightarrow>
     (\<exists>n e sg rest. split_js colon t = n # e # sg # rest \<and> n \<noteq> [] \<and> e \<noteq> []
        \<and> map hexLower sg = hmacHex k (n @ js '':'' @ e)
        \<and> \<not> isNaN (Number_js e) \<and> le_js now (Number_js e))"
proof (cases "\<exists>n e sg rest. split_js colon t = n # e # sg # rest \<and> n \<noteq> [] \<and> e \<noteq> [] \<and> sg \<noteq> []")
  case True
  then obtain n e sg rest where s: "split_js colon t = n # e # sg # rest"
    and ne: "n \<noteq> []" "e \<noteq> []" "sg \<noteq> []"
    by blast
  have "verifyToken k now t = judge k now n e sg"
    using s ne by (rule verifyToken_split)
  then show ?thesis
    using ne by (simp add: judge_Next_iff s)
next
  case False
  then have d: "verifyToken k now t = denied"
    by (auto simp: verifyToken_def split: list.splits)
  have "\<not> (\<exists>n e sg rest. split_js colon t = n # e # sg # rest \<and> n \<noteq> [] \<and> e \<noteq> []
        \<and> map hexLower sg = hmacHex k (n @ js '':'' @ e)
        \<and> \<not> isNaN (Number_js e) \<and> le_js now (Number_js e))"
  proof
    assume "\<exists>n e sg rest. split_js colon t = n # e # sg # rest \<and> n \<noteq> [] \<and> e \<noteq> []
        \<and> map hexLower sg = hmacHex k (n @ js '':'' @ e)
        \<and> \<not> isNaN (Number_js e) \<and> le_js now (Number_js e)"
    then obtain n e sg rest where s: "split_js colon t = n # e # sg # rest" "n \<noteq> []" "e \<noteq> []"
      and m: "map hexLower sg = hmacHex k (n @ js '':'' @ e)"
      by blast
    have "length sg = 64"
      using m by (rule matching_signature)
    then have "sg \<noteq> []"
      by auto
    with s False show False
      by blast
  qed
  then show ?thesis
    by (simp only: d denied_not_Next)
qed

lemma verifyCsrfToken_Next_iff:
  "verifyCsrfToken k now r = Next \<longleftrightarrow>
     (\<exists>t n e sg rest. candidate r = JStr t \<and> split_js colon t = n # e # sg # rest
        \<and> n \<noteq> [] \<and> e \<noteq> []
        \<and> map hexLower sg = hmacHex k (n @ js '':'' @ e)
        \<and> \<not> isNaN (Number_js e) \<and> le_js now (Number_js e))"
proof (cases "candidate r")
  case (JStr t)
  show ?thesis
  proof (cases "t = []")
    case True
    then show ?thesis
      by (simp add: verifyCsrfToken_def JStr denied_not_Next)
  next
    case False
    then have "verifyCsrfToken k now r = verifyToken k now t"
      by (simp add: verifyCsrfToken_def JStr)
    then show ?thesis
      by (simp add: verifyToken_Next_iff JStr)
  qed
qed (simp_all add: verifyCsrfToken_def denied_not_Next)

section \<open>Start-up\<close>

lemma secret_example:
  "toHex (fst (randomBytes 32 example_rng)) = js ''000102030405060708090a0b0c0d0e0f101112131415161718191a1b1c1d1e1f''"
  by code_simp

text \<open>
  C9. With \<open>CSRF_SECRET\<close> absent, start-up throws when \<open>NODE_ENV\<close> is
  \<open>production\<close>, and otherwise goes on with the hex encoding of 32 bytes drawn from the
  random generator as the secret (64 lower-case hex digits) and one warning. Whenever
  start-up succeeds in production, the secret is the configured, non-empty
  \<open>CSRF_SECRET\<close>, no warning was written and nothing was drawn from the generator.
\<close>

theorem startup_secret:
  "(CSRF_SECRET e = None \<longrightarrow>
      (NODE_ENV e = Some (js ''production'') \<longrightarrow> startup e g = Inl (Error secret_msg))
    \<and> (NODE_ENV e \<noteq> Some (js ''production'') \<longrightarrow>
          startup e g = Inr \<lparr>secret = toHex (fst (randomBytes 32 g)), warnings = [secret_msg],
                            generator = g\<lparr>drawn := drawn g + 32\<rparr>\<rparr>))
   \<and> length (toHex (fst (randomBytes 32 g))) = 64 \<and> lowerHex (toHex (fst (randomBytes 32 g)))
   \<and> (NODE_ENV e = Some (js ''production'') \<longrightarrow> startup e g = Inr st \<longrightarrow>
          CSRF_SECRET e = Some (secret st) \<and> secret st \<noteq> [] \<and> warnings st = []
          \<and> generator st = g)"
proof (intro conjI)
  show "CSRF_SECRET e = None \<longrightarrow>
      (NODE_ENV e = Some (js ''production'') \<longrightarrow> startup e g = Inl (Error secret_msg))
    \<and> (NODE_ENV e \<noteq> Some (js ''production'') \<longrightarrow>
          startup e g = Inr \<lparr>secret = toHex (fst (randomBytes 32 g)), warnings = [secret_msg],
                            generator = g\<lparr>drawn := drawn g + 32\<rparr>\<rparr>)"
    by (simp add: startup_def Let_def env_val_def or_js_def snd_randomBytes)
  show "length (toHex (fst (randomBytes 32 g))) = 64"
    by (simp add: length_toHex length_randomBytes)
  show "lowerHex (toHex (fst (randomBytes 32 g)))"
    by (simp add: lowerHex_toHex isByte_randomBytes)
  show "NODE_ENV e = Some (js ''production'') \<longrightarrow> startup e g = Inr st \<longrightarrow>
          CSRF_SECRET e = Some (secret st) \<and> secret st \<noteq> [] \<and> warnings st = []
          \<and> generator st = g"
    by (cases "CSRF_SECRET e")
      (auto simp: startup_def Let_def env_val_def or_js_def split: if_splits)
qed

theorem startup_secret_witness:
  "startup \<lparr>NODE_ENV = Some (js ''production''), CSRF_SECRET = None\<rparr> example_rng
       = Inl (Error secret_msg)
   \<and> startup \<lparr>NODE_ENV = Some (js ''development''), CSRF_SECRET = None\<rparr> example_rng
       = Inr \<lparr>secret = js ''000102030405060708090a0b0c0d0e0f101112131415161718191a1b1c1d1e1f'',
              warnings = [secret_msg], generator = example_rng\<lparr>drawn := 32\<rparr>\<rparr>
   \<and> startup \<lparr>NODE_ENV = Some (js ''production''), CSRF_SECRET = Some (js ''k'')\<rparr> example_rng
       = Inr \<lparr>secret = js ''k'', warnings = [], generator = example_rng\<rparr>"
proof -
  let ?p = "\<lparr>NODE_ENV = Some (js ''production''), CSRF_SECRET = None\<rparr>"
  let ?d = "\<lparr>NODE_ENV = Some (js ''development''), CSRF_SECRET = None\<rparr>"
  let ?k = "\<lparr>NODE_ENV = Some (js ''production''), CSRF_SECRET = Some (js ''k'')\<rparr>"
  have n: "CSRF_SECRET ?p = None" "CSRF_SECRET ?d = None"
    by simp_all
  have pp: "NODE_ENV ?p = Some (js ''production'')" "NODE_ENV ?k = Some (js ''production'')"
    by simp_all
  have dd: "NODE_ENV ?d \<noteq> Some (js ''production'')"
    by simp
  have a: "startup ?p example_rng = Inl (Error secret_msg)"
    by (rule startup_secret [of ?p example_rng, THEN conjunct1, THEN mp, OF n(1), THEN conjunct1,
          THEN mp, OF pp(1)])
  have "startup ?d example_rng
      = Inr \<lparr>secret = toHex (fst (randomBytes 32 example_rng)), warnings = [secret_msg],
             generator = example_rng\<lparr>drawn := drawn example_rng + 32\<rparr>\<rparr>"
    by (rule startup_secret [of ?d example_rng, THEN conjunct1, THEN mp, OF n(2), THEN conjunct2,
          THEN mp, OF dd])
  then have b: "startup ?d example_rng
      = Inr \<lparr>secret = js ''000102030405060708090a0b0c0d0e0f101112131415161718191a1b1c1d1e1f'',
              warnings = [secret_msg], generator = example_rng\<lparr>drawn := 32\<rparr>\<rparr>"
    by (simp add: secret_example) (simp add: example_rng_def)
  have s: "startup ?k example_rng = Inr \<lparr>secret = js ''k'', warnings = [], generator = example_rng\<rparr>"
    by (simp add: startup_def Let_def env_val_def or_js_def)
  have "CSRF_SECRET ?k = Some (secret \<lparr>secret = js ''k'', warnings = [], generator = example_rng\<rparr>)
      \<and> secret \<lparr>secret = js ''k'', warnings = [], generator = example_rng\<rparr> \<noteq> []
      \<and> warnings \<lparr>secret = js ''k'', warnings = [], generator = example_rng\<rparr> = []
      \<and> generator \<lparr>secret = js ''k'', warnings = [], generator = example_rng\<rparr> = example_rng"
    by (rule startup_secret [of ?k example_rng, THEN conjunct2, THEN conjunct2, THEN conjunct2,
          THEN mp, OF pp(2), THEN mp, OF s])
  show ?thesis
    using a b s by (intro conjI)
qed

section \<open>The source of the candidate token\<close>

text \<open>
  C5 (as stated: the first present source wins). A request whose header
  \<open>x-csrf-token\<close> is present but empty, with a valid token in the body field
  \<open>_token\<close>: the candidate is the body's token, not the header's value, and the request
  passes.
\<close>

theorem empty_header_falls_through:
  "headers \<lparr>headers = [''x-csrf-token'' \<mapsto> []],
             body = Some [''_token'' \<mapsto> JStr (js ''000102030405060708090a0b0c0d0e0f:1700001800000:7d39fe06f38327ed7922f167213e30050374b023fcfffca9aba23f4bc450f294'')]\<rparr> ''x-csrf-token'' = Some []
   \<and> candidate \<lparr>headers = [''x-csrf-token'' \<mapsto> []],
             body = Some [''_token'' \<mapsto> JStr (js ''000102030405060708090a0b0c0d0e0f:1700001800000:7d39fe06f38327ed7922f167213e30050374b023fcfffca9aba23f4bc450f294'')]\<rparr>
       = JStr (js ''000102030405060708090a0b0c0d0e0f:1700001800000:7d39fe06f38327ed7922f167213e30050374b023fcfffca9aba23f4bc450f294'')
   \<and> verifyCsrfToken (js ''test-secret'') 1700000000000
        \<lparr>headers = [''x-csrf-token'' \<mapsto> []],
         body = Some [''_token'' \<mapsto> JStr (js ''000102030405060708090a0b0c0d0e0f:1700001800000:7d39fe06f38327ed7922f167213e30050374b023fcfffca9aba23f4bc450f294'')]\<rparr> = Next
   \<and> verifyCsrfToken (js ''test-secret'') 1700000000000 (header_request []) = denied"
proof -
  let ?req = "\<lparr>headers = [''x-csrf-token'' \<mapsto> []],
             body = Some [''_token'' \<mapsto> JStr (js ''000102030405060708090a0b0c0d0e0f:1700001800000:7d39fe06f38327ed7922f167213e30050374b023fcfffca9aba23f4bc450f294'')]\<rparr>"
  have c: "candidate ?req = JStr (js ''000102030405060708090a0b0c0d0e0f:1700001800000:7d39fe06f38327ed7922f167213e30050374b023fcfffca9aba23f4bc450f294'')"
    by (simp add: candidate_def header_def body_field_def or_js_def)
  have v: "verifyToken (js ''test-secret'') 1700000000000 (js ''000102030405060708090a0b0c0d0e0f:1700001800000:7d39fe06f38327ed7922f167213e30050374b023fcfffca9aba23f4bc450f294'') = Next"
    by (simp add: example_verify)
  have n: "verifyCsrfToken (js ''test-secret'') 1700000000000 ?req = Next"
    using c v by (simp add: verifyCsrfToken_candidate)
  have d: "verifyCsrfToken (js ''test-secret'') 1700000000000 (header_request []) = denied"
    by (simp add: verifyCsrfToken_def candidate_def header_request_def header_def
        body_field_def or_js_def)
  have h: "headers ?req ''x-csrf-token'' = Some []"
    by simp
  show ?thesis
    using h c n d by (intro conjI)
qed

text \<open>
  C5 (amended). The candidate is the first truthy source in the order header
  \<open>x-csrf-token\<close>, body field \<open>_token\<close>, body field \<open>csrfToken\<close> (the last one
  whatever it is). A non-empty header is the candidate whatever the body holds, so the
  request is judged as the request with that header alone; an absent or empty header
  leaves the choice to the body fields.
\<close>

theorem candidate_first_truthy:
  "candidate req =
     (if truthy (header req ''x-csrf-token'') then header req ''x-csrf-token''
      else if truthy (body_field req ''_token'') then body_field req ''_token''
      else body_field req ''csrfToken'')
   \<and> (headers req ''x-csrf-token'' = Some h \<and> h \<noteq> [] \<longrightarrow>
        candidate req = JStr h
        \<and> verifyCsrfToken k now req = verifyCsrfToken k now (header_request h))
   \<and> (headers req ''x-csrf-token'' = None \<or> headers req ''x-csrf-token'' = Some [] \<longrightarrow>
        candidate req = or_js (body_field req ''_token'') (body_field req ''csrfToken''))"
proof (intro conjI impI)
  show "candidate req =
     (if truthy (header req ''x-csrf-token'') then header req ''x-csrf-token''
      else if truthy (body_field req ''_token'') then body_field req ''_token''
      else body_field req ''csrfToken'')"
    by (simp add: candidate_def or_js_def)
next
  assume a: "headers req ''x-csrf-token'' = Some h \<and> h \<noteq> []"
  then show c: "candidate req = JStr h"
    by (simp add: candidate_def header_def or_js_def)
  show "verifyCsrfToken k now req = verifyCsrfToken k now (header_request h)"
    using a c by (simp add: verifyCsrfToken_def candidate_header_request)
next
  assume "headers req ''x-csrf-token'' = None \<or> headers req ''x-csrf-token'' = Some []"
  then show "candidate req = or_js (body_field req ''_token'') (body_field req ''csrfToken'')"
    by (auto simp: candidate_def header_def or_js_def)
qed

theorem candidate_first_truthy_witness:
  "candidate \<lparr>headers = [''x-csrf-token'' \<mapsto> js ''abc''],
              body = Some [''_token'' \<mapsto> JStr (js ''def''), ''csrfToken'' \<mapsto> JStr (js ''ghi'')]\<rparr> = JStr (js ''abc'')
   \<and> candidate \<lparr>headers = Map.empty,
              body = Some [''_token'' \<mapsto> JNum (Finite 0), ''csrfToken'' \<mapsto> JStr (js ''ghi'')]\<rparr> = JStr (js ''ghi'')"
proof -
  let ?r1 = "\<lparr>headers = [''x-csrf-token'' \<mapsto> js ''abc''],
              body = Some [''_token'' \<mapsto> JStr (js ''def''), ''csrfToken'' \<mapsto> JStr (js ''ghi'')]\<rparr>"
  let ?r2 = "\<lparr>headers = Map.empty,
              body = Some [''_token'' \<mapsto> JNum (Finite 0), ''csrfToken'' \<mapsto> JStr (js ''ghi'')]\<rparr>"
  have p1: "headers ?r1 ''x-csrf-token'' = Some (js ''abc'') \<and> js ''abc'' \<noteq> []"
    by simp
  have p2: "headers ?r2 ''x-csrf-token'' = None \<or> headers ?r2 ''x-csrf-token'' = Some []"
    by simp
  have e: "or_js (body_field ?r2 ''_token'') (body_field ?r2 ''csrfToken'') = JStr (js ''ghi'')"
    by (simp add: body_field_def or_js_def)
  have a: "candidate ?r1 = JStr (js ''abc'')"
    using candidate_first_truthy [of ?r1 "js ''abc''"] p1 by blast
  have "candidate ?r2 = or_js (body_field ?r2 ''_token'') (body_field ?r2 ''csrfToken'')"
    using candidate_first_truthy [of ?r2] p2 by blast
  then have b: "candidate ?r2 = JStr (js ''ghi'')"
    by (simp only: e)
  show ?thesis
    using a b by (intro conjI)
qed

section \<open>Accepting a token\<close>

text \<open>
  C1 (as stated: accepted if and only if the signature equals the hex HMAC). Two
  requests pass whose signature field is not the hex-encoded HMAC: the issued token of
  the worked example with its signature in upper case, in the header; and, in the body
  field \<open>_token\<close>, the same token with the first digit \<open>7\<close> of its signature replaced by
  the code unit U+0137, which the hex decoder reads by its low byte \<open>0x37\<close>.
\<close>

theorem upper_case_signature_accepted:
  "verifyCsrfToken (js ''test-secret'') 1700000000000 (header_request (js ''000102030405060708090a0b0c0d0e0f:1700001800000:7D39FE06F38327ED7922F167213E30050374B023FCFFFCA9ABA23F4BC450F294'')) = Next
   \<and> js ''7D39FE06F38327ED7922F167213E30050374B023FCFFFCA9ABA23F4BC450F294'' \<noteq> hmacHex (js ''test-secret'') (js ''000102030405060708090a0b0c0d0e0f:1700001800000'')
   \<and> verifyCsrfToken (js ''test-secret'') 1700000000000 (body_request (js ''000102030405060708090a0b0c0d0e0f:1700001800000:'' @ 311 # js ''d39fe06f38327ed7922f167213e30050374b023fcfffca9aba23f4bc450f294'')) = Next
   \<and> 311 # js ''d39fe06f38327ed7922f167213e30050374b023fcfffca9aba23f4bc450f294'' \<noteq> hmacHex (js ''test-secret'') (js ''000102030405060708090a0b0c0d0e0f:1700001800000'')"
proof -
  have a: "verifyCsrfToken (js ''test-secret'') 1700000000000 (header_request (js ''000102030405060708090a0b0c0d0e0f:1700001800000:7D39FE06F38327ED7922F167213E30050374B023FCFFFCA9ABA23F4BC450F294'')) = Next"
    by (simp add: verifyCsrfToken_candidate [OF candidate_header_request] example_verify_upper)
  have b: "js ''7D39FE06F38327ED7922F167213E30050374B023FCFFFCA9ABA23F4BC450F294'' \<noteq> hmacHex (js ''test-secret'') (js ''000102030405060708090a0b0c0d0e0f:1700001800000'')"
    by (simp add: hmac_example)
  have c: "verifyCsrfToken (js ''test-secret'') 1700000000000 (body_request (js ''000102030405060708090a0b0c0d0e0f:1700001800000:'' @ 311 # js ''d39fe06f38327ed7922f167213e30050374b023fcfffca9aba23f4bc450f294'')) = Next"
    by (simp add: verifyCsrfToken_candidate [OF candidate_body_request] example_verify_low_byte)
  have d: "311 # js ''d39fe06f38327ed7922f167213e30050374b023fcfffca9aba23f4bc450f294'' \<noteq> hmacHex (js ''test-secret'') (js ''000102030405060708090a0b0c0d0e0f:1700001800000'')"
    by (simp only: hmac_example) (simp add: js_def)
  show ?thesis
    using a b c d by (intro conjI)
qed

text \<open>
  C1 (amended). The verifier calls \<open>next()\<close> on a request if and only if its candidate
  is a string whose split at \<open>:\<close> has at least three fields, the first two non-empty,
  such that the third, each code unit read by its low byte with \<open>A-F\<close> in lower case
  (\<open>hexLower\<close>, as the hex decoder reads it), is the hex-encoded HMAC-SHA256 of
  \<open>nonce:expiry\<close> under the secret, \<open>Number(expiry)\<close> is not NaN, and the clock reading
  is at most that number. In particular this decides every candidate
  \<open>nonce:expiry:signature\<close> with non-empty, colon-free fields. A token minted by
  \<open>issueCsrfToken\<close> at a time value \<open>t0\<close>, from whatever bytes the generator yields,
  passes at every clock reading up to \<open>t0\<close> plus 30 minutes and is denied at every later
  one.
\<close>

theorem verifyCsrfToken_accepts_iff:
  "(verifyCsrfToken k now r = Next \<longleftrightarrow>
      (\<exists>t n e sg rest. candidate r = JStr t \<and> split_js colon t = n # e # sg # rest
          \<and> n \<noteq> [] \<and> e \<noteq> []
          \<and> map hexLower sg = hmacHex k (n @ js '':'' @ e)
          \<and> \<not> isNaN (Number_js e) \<and> le_js now (Number_js e)))
   \<and> (candidate req = JStr (nonce @ js '':'' @ expiryStr @ js '':'' @ signature)
      \<and> nonce \<noteq> [] \<and> expiryStr \<noteq> [] \<and> signature \<noteq> []
      \<and> colon \<notin> set nonce \<and> colon \<notin> set expiryStr \<and> colon \<notin> set signature \<longrightarrow>
      (verifyCsrfToken k now req = Next \<longleftrightarrow>
         map hexLower signature = hmacHex k (nonce @ js '':'' @ expiryStr)
         \<and> \<not> isNaN (Number_js expiryStr) \<and> le_js now (Number_js expiryStr)))
   \<and> (candidate req' = JStr (fst (issueCsrfToken k g t0)) \<and> \<bar>t0\<bar> \<le> 8640000000000000 \<longrightarrow>
      verifyCsrfToken k now req' = (if now \<le> t0 + CSRF_TOKEN_EXPIRY_MS then Next else denied))"
proof (intro conjI impI)
  show "verifyCsrfToken k now r = Next \<longleftrightarrow>
      (\<exists>t n e sg rest. candidate r = JStr t \<and> split_js colon t = n # e # sg # rest
          \<and> n \<noteq> [] \<and> e \<noteq> []
          \<and> map hexLower sg = hmacHex k (n @ js '':'' @ e)
          \<and> \<not> isNaN (Number_js e) \<and> le_js now (Number_js e))"
    by (rule verifyCsrfToken_Next_iff)
next
  assume a: "candidate req = JStr (nonce @ js '':'' @ expiryStr @ js '':'' @ signature)
      \<and> nonce \<noteq> [] \<and> expiryStr \<noteq> [] \<and> signature \<noteq> []
      \<and> colon \<notin> set nonce \<and> colon \<notin> set expiryStr \<and> colon \<notin> set signature"
  then have "verifyCsrfToken k now req = verifyToken k now (nonce @ js '':'' @ expiryStr @ js '':'' @ signature)"
    by (intro verifyCsrfToken_candidate) simp_all
  also have "\<dots> = judge k now nonce expiryStr signature"
    using a by (intro verifyToken_fields) simp_all
  finally show "verifyCsrfToken k now req = Next \<longleftrightarrow>
         map hexLower signature = hmacHex k (nonce @ js '':'' @ expiryStr)
         \<and> \<not> isNaN (Number_js expiryStr) \<and> le_js now (Number_js expiryStr)"
    by (simp only: judge_Next_iff)
next
  assume b: "candidate req' = JStr (fst (issueCsrfToken k g t0)) \<and> \<bar>t0\<bar> \<le> 8640000000000000"
  define rnd where "rnd = fst (randomBytes 16 g)"
  define n where "n = toHex rnd"
  define e where "e = numToString (t0 + 1800000)"
  define sg where "sg = hmacHex k (n @ js '':'' @ e)"
  have r: "length rnd = 16" "list_all isByte rnd"
    by (simp_all add: rnd_def length_randomBytes isByte_randomBytes)
  have tok: "fst (issueCsrfToken k g t0) = n @ js '':'' @ e @ js '':'' @ sg"
    by (simp add: issueCsrfToken_def Let_def CSRF_TOKEN_EXPIRY_MS_def rnd_def n_def e_def sg_def)
  have ln: "lowerHex n" "length n = 32"
    using r by (simp_all add: n_def lowerHex_toHex length_toHex)
  have n: "n \<noteq> []" "colon \<notin> set n"
    using ln by (auto simp: lowerHex_no_colon)
  have e: "e \<noteq> []" "colon \<notin> set e"
    using numToString_plain [of "t0 + 1800000"] by (simp_all add: e_def)
  have lsg: "lowerHex sg" "length sg = 64"
    by (simp_all add: sg_def lowerHex_hmacHex length_hmacHex)
  have sg: "sg \<noteq> []" "colon \<notin> set sg"
    using lsg by (auto simp: lowerHex_no_colon)
  have m: "map hexLower sg = hmacHex k (n @ js '':'' @ e)"
    using lsg(1) by (simp add: map_hexLower_lower sg_def)
  have "\<bar>t0 + 1800000\<bar> < (9007199254740992 :: int)"
    using b by linarith
  then have "\<bar>t0 + 1800000\<bar> < 2 ^ 53"
    by simp
  then have num: "Number_js e = Finite (of_int (t0 + 1800000))"
    unfolding e_def by (rule Number_js_issued)
  have "verifyCsrfToken k now req' = verifyToken k now (n @ js '':'' @ e @ js '':'' @ sg)"
    using b n by (intro verifyCsrfToken_candidate) (simp_all add: tok)
  also have "\<dots> = judge k now n e sg"
    using n e sg by (intro verifyToken_fields)
  also have "\<dots> = (if (of_int now :: rat) \<le> of_int (t0 + 1800000) then Next else denied)"
    using m num by (rule judge_Finite)
  finally show "verifyCsrfToken k now req' = (if now \<le> t0 + CSRF_TOKEN_EXPIRY_MS then Next else denied)"
    by (simp add: CSRF_TOKEN_EXPIRY_MS_def)
qed

theorem verifyCsrfToken_accepts_iff_witness:
  "verifyCsrfToken (js ''test-secret'') 1700000000000
     (header_request (fst (issueCsrfToken (js ''test-secret'') example_rng 1700000000000))) = Next
   \<and> verifyCsrfToken (js ''test-secret'') 1700001800000
     (header_request (fst (issueCsrfToken (js ''test-secret'') example_rng 1700000000000))) = Next
   \<and> verifyCsrfToken (js ''test-secret'') 1700001800001
     (header_request (fst (issueCsrfToken (js ''test-secret'') example_rng 1700000000000))) = denied
   \<and> map hexLower (js ''7D39FE06F38327ED7922F167213E30050374B023FCFFFCA9ABA23F4BC450F294'') = hmacHex (js ''test-secret'') (js ''000102030405060708090a0b0c0d0e0f'' @ js '':'' @ js ''1700001800000'')
   \<and> le_js 1700000000000 (Number_js (js ''1700001800000''))
   \<and> verifyCsrfToken (js ''test-secret'') 1700000000000
     (header_request (js ''000102030405060708090a0b0c0d0e0f'' @ js '':'' @ js ''1700001800000'' @ js '':'' @ js ''7D39FE06F38327ED7922F167213E30050374B023FCFFFCA9ABA23F4BC450F294'')) = Next
   \<and> map hexLower (311 # js ''d39fe06f38327ed7922f167213e30050374b023fcfffca9aba23f4bc450f294'') = hmacHex (js ''test-secret'') (js ''000102030405060708090a0b0c0d0e0f'' @ js '':'' @ js ''1700001800000'')
   \<and> verifyCsrfToken (js ''test-secret'') 1700000000000
     (body_request (js ''000102030405060708090a0b0c0d0e0f'' @ js '':'' @ js ''1700001800000'' @ js '':'' @ (311 # js ''d39fe06f38327ed7922f167213e30050374b023fcfffca9aba23f4bc450f294''))) = Next"
proof -
  let ?req = "header_request (fst (issueCsrfToken (js ''test-secret'') example_rng 1700000000000))"
  have h: "candidate ?req = JStr (fst (issueCsrfToken (js ''test-secret'') example_rng 1700000000000))
      \<and> \<bar>1700000000000 :: int\<bar> \<le> 8640000000000000"
    by (simp add: issue_example candidate_header_request)
  have i: "verifyCsrfToken (js ''test-secret'') now ?req
      = (if now \<le> 1700000000000 + CSRF_TOKEN_EXPIRY_MS then Next else denied)" for now
    by (rule verifyCsrfToken_accepts_iff
        [where k = "js ''test-secret''" and req' = ?req and g = example_rng and ?t0.0 = 1700000000000,
          THEN conjunct2, THEN conjunct2, THEN mp, OF h])
  have a: "verifyCsrfToken (js ''test-secret'') 1700000000000 ?req = Next"
    by (simp only: i) (simp add: CSRF_TOKEN_EXPIRY_MS_def)
  have b: "verifyCsrfToken (js ''test-secret'') 1700001800000 ?req = Next"
    by (simp only: i) (simp add: CSRF_TOKEN_EXPIRY_MS_def)
  have c: "verifyCsrfToken (js ''test-secret'') 1700001800001 ?req = denied"
    by (simp only: i) (simp add: CSRF_TOKEN_EXPIRY_MS_def)
  have l: "map hexLower (js ''7D39FE06F38327ED7922F167213E30050374B023FCFFFCA9ABA23F4BC450F294'') = js ''7d39fe06f38327ed7922f167213e30050374b023fcfffca9aba23f4bc450f294''"
    by code_simp
  have p: "js ''000102030405060708090a0b0c0d0e0f'' @ js '':'' @ js ''1700001800000'' = js ''000102030405060708090a0b0c0d0e0f:1700001800000''"
    by (simp add: js_join)
  have m: "map hexLower (js ''7D39FE06F38327ED7922F167213E30050374B023FCFFFCA9ABA23F4BC450F294'') = hmacHex (js ''test-secret'') (js ''000102030405060708090a0b0c0d0e0f'' @ js '':'' @ js ''1700001800000'')"
    by (simp only: l p hmac_example)
  have le: "le_js 1700000000000 (Number_js (js ''1700001800000''))"
    by (simp add: Number_js_example)
  have nn: "\<not> isNaN (Number_js (js ''1700001800000''))"
    by (simp add: Number_js_example)
  let ?up = "header_request (js ''000102030405060708090a0b0c0d0e0f'' @ js '':'' @ js ''1700001800000'' @ js '':'' @ js ''7D39FE06F38327ED7922F167213E30050374B023FCFFFCA9ABA23F4BC450F294'')"
  have g: "candidate ?up = JStr (js ''000102030405060708090a0b0c0d0e0f'' @ js '':'' @ js ''1700001800000'' @ js '':'' @ js ''7D39FE06F38327ED7922F167213E30050374B023FCFFFCA9ABA23F4BC450F294'')
      \<and> js ''000102030405060708090a0b0c0d0e0f'' \<noteq> [] \<and> js ''1700001800000'' \<noteq> [] \<and> js ''7D39FE06F38327ED7922F167213E30050374B023FCFFFCA9ABA23F4BC450F294'' \<noteq> []
      \<and> colon \<notin> set (js ''000102030405060708090a0b0c0d0e0f'') \<and> colon \<notin> set (js ''1700001800000'') \<and> colon \<notin> set (js ''7D39FE06F38327ED7922F167213E30050374B023FCFFFCA9ABA23F4BC450F294'')"
    by (simp add: candidate_header_request)
  have d: "verifyCsrfToken (js ''test-secret'') 1700000000000 ?up = Next"
    by (rule verifyCsrfToken_accepts_iff
        [where k = "js ''test-secret''" and now = 1700000000000 and req = ?up and nonce = "js ''000102030405060708090a0b0c0d0e0f''"
          and expiryStr = "js ''1700001800000''" and signature = "js ''7D39FE06F38327ED7922F167213E30050374B023FCFFFCA9ABA23F4BC450F294''",
          THEN conjunct2, THEN conjunct1, THEN mp, OF g, THEN iffD2, OF conjI [OF m conjI [OF nn le]]])
  have m2: "map hexLower (311 # js ''d39fe06f38327ed7922f167213e30050374b023fcfffca9aba23f4bc450f294'') = hmacHex (js ''test-secret'') (js ''000102030405060708090a0b0c0d0e0f'' @ js '':'' @ js ''1700001800000'')"
    by (rule low_byte_signature)
  let ?t = "js ''000102030405060708090a0b0c0d0e0f'' @ js '':'' @ js ''1700001800000'' @ js '':'' @ (311 # js ''d39fe06f38327ed7922f167213e30050374b023fcfffca9aba23f4bc450f294'')"
  have c2: "candidate (body_request ?t) = JStr ?t"
    by (simp add: candidate_body_request)
  have s2: "split_js colon ?t = [js ''000102030405060708090a0b0c0d0e0f'', js ''1700001800000'', 311 # js ''d39fe06f38327ed7922f167213e30050374b023fcfffca9aba23f4bc450f294'']"
    by (simp add: split_js_append split_js_nosep js_colon)
  have ne: "js ''000102030405060708090a0b0c0d0e0f'' \<noteq> []" "js ''1700001800000'' \<noteq> []"
    by simp_all
  have ex: "\<exists>t n e sg rest. candidate (body_request ?t) = JStr t \<and> split_js colon t = n # e # sg # rest
          \<and> n \<noteq> [] \<and> e \<noteq> []
          \<and> map hexLower sg = hmacHex (js ''test-secret'') (n @ js '':'' @ e)
          \<and> \<not> isNaN (Number_js e) \<and> le_js 1700000000000 (Number_js e)"
    using c2 s2 ne m2 nn le by blast
  have f: "verifyCsrfToken (js ''test-secret'') 1700000000000 (body_request ?t) = Next"
    by (rule verifyCsrfToken_accepts_iff
        [where k = "js ''test-secret''" and now = 1700000000000 and r = "body_request ?t",
          THEN conjunct1, THEN iffD2, OF ex])
  show ?thesis
    using a b c m le d m2 f by (intro conjI)
qed

section \<open>Signatures that are not hex\<close>

lemma hexDecode_all_hex:
  "length (hexDecode s) = length s div 2 \<Longrightarrow> even (length s) \<Longrightarrow> c \<in> set s \<Longrightarrow>
   unhex c \<noteq> None"
proof (induction s rule: hexDecode.induct)
  case (1 a b rest)
  show ?case
  proof (cases "unhex a = None \<or> unhex b = None")
    case True
    then have "hexDecode (a # b # rest) = []"
      by (auto split: option.splits)
    then show ?thesis
      using "1.prems"(1) by simp
  next
    case False
    then obtain x y where xy: "unhex a = Some x" "unhex b = Some y"
      by auto
    then have "length (hexDecode rest) = length rest div 2"
      using "1.prems"(1) by simp
    then have "c \<in> set rest \<Longrightarrow> unhex c \<noteq> None"
      using "1.IH" [OF refl xy] "1.prems"(2) by simp
    then show ?thesis
      using "1.prems"(3) xy by auto
  qed
qed simp_all

lemma judge_throws:
  assumes "length sg = 64" "c \<in> set sg" "unhex c = None"
  shows "judge k now n e sg = Throw RangeError"
proof -
  have "length (hexDecode sg) \<noteq> 32"
    using hexDecode_all_hex [of sg c] assms by auto
  then show ?thesis
    using assms(1) by (simp add: judge_def)
qed

text \<open>
  C2. Every verification failure is answered with the one generic 403 denial and the
  verifier never throws: this fails on one path. A signature field of 64 code units, the
  length of the expected digest, that holds a unit whose low byte is no hex digit passes
  the length test of line 60, is decoded to fewer than 32 bytes, and makes
  \<open>crypto.timingSafeEqual\<close> throw: the verifier answers with a \<open>RangeError\<close>, not
  with the denial. Every answer of the verifier is \<open>next()\<close>, the generic denial, or
  that exception.
\<close>

theorem verifyCsrfToken_throws:
  "(candidate req = JStr (n @ js '':'' @ e @ js '':'' @ sg)
      \<and> n \<noteq> [] \<and> e \<noteq> []
      \<and> colon \<notin> set n \<and> colon \<notin> set e \<and> colon \<notin> set sg
      \<and> length sg = 64 \<and> c \<in> set sg \<and> unhex c = None \<longrightarrow>
      verifyCsrfToken k now req = Throw RangeError)
   \<and> verifyCsrfToken k now (header_request (js ''ab:1:zzzzzzzzzzzzzzzzzzzzzzzzzzzzzzzzzzzzzzzzzzzzzzzzzzzzzzzzzzzzzzzz''))
       = Throw RangeError
   \<and> (verifyCsrfToken k now r = Next \<or> verifyCsrfToken k now r = denied
       \<or> verifyCsrfToken k now r = Throw RangeError)"
proof (intro conjI impI)
  assume a: "candidate req = JStr (n @ js '':'' @ e @ js '':'' @ sg)
      \<and> n \<noteq> [] \<and> e \<noteq> []
      \<and> colon \<notin> set n \<and> colon \<notin> set e \<and> colon \<notin> set sg
      \<and> length sg = 64 \<and> c \<in> set sg \<and> unhex c = None"
  then have sg: "sg \<noteq> []"
    by auto
  have "verifyCsrfToken k now req = verifyToken k now (n @ js '':'' @ e @ js '':'' @ sg)"
    using a by (intro verifyCsrfToken_candidate) simp_all
  also have "\<dots> = judge k now n e sg"
    using a sg by (intro verifyToken_fields) simp_all
  also have "\<dots> = Throw RangeError"
    using a by (intro judge_throws [of sg c]) simp_all
  finally show "verifyCsrfToken k now req = Throw RangeError" .
next
  have t: "js ''ab:1:zzzzzzzzzzzzzzzzzzzzzzzzzzzzzzzzzzzzzzzzzzzzzzzzzzzzzzzzzzzzzzzz'' = js ''ab'' @ js '':'' @ js ''1'' @ js '':'' @ js ''zzzzzzzzzzzzzzzzzzzzzzzzzzzzzzzzzzzzzzzzzzzzzzzzzzzzzzzzzzzzzzzz''"
    by (simp add: js_join)
  have z: "unhex (of_char CHR ''z'') = None"
    by (simp add: unhex_def digitVal_def)
  have j: "judge k now (js ''ab'') (js ''1'') (js ''zzzzzzzzzzzzzzzzzzzzzzzzzzzzzzzzzzzzzzzzzzzzzzzzzzzzzzzzzzzzzzzz'') = Throw RangeError"
    by (rule judge_throws [of _ "of_char CHR ''z''"]) (simp_all add: z [simplified] js_def)
  have "verifyToken k now (js ''ab:1:zzzzzzzzzzzzzzzzzzzzzzzzzzzzzzzzzzzzzzzzzzzzzzzzzzzzzzzzzzzzzzzz'') = Throw RangeError"
    by (subst t, subst verifyToken_fields) (simp_all add: j)
  then show "verifyCsrfToken k now (header_request (js ''ab:1:zzzzzzzzzzzzzzzzzzzzzzzzzzzzzzzzzzzzzzzzzzzzzzzzzzzzzzzzzzzzzzzz'')) = Throw RangeError"
    by (simp add: verifyCsrfToken_candidate [OF candidate_header_request])
next
  show "verifyCsrfToken k now r = Next \<or> verifyCsrfToken k now r = denied
       \<or> verifyCsrfToken k now r = Throw RangeError"
    using verifyToken_outcomes by (auto simp: verifyCsrfToken_def split: jsval.splits)
qed

theorem verifyCsrfToken_throws_witness:
  "verifyCsrfToken (js ''test-secret'') 1700000000000 (header_request (js ''ab'' @ js '':'' @ js ''1'' @ js '':'' @ js ''zzzzzzzzzzzzzzzzzzzzzzzzzzzzzzzzzzzzzzzzzzzzzzzzzzzzzzzzzzzzzzzz''))
     = Throw RangeError"
proof -
  let ?req = "header_request (js ''ab'' @ js '':'' @ js ''1'' @ js '':'' @ js ''zzzzzzzzzzzzzzzzzzzzzzzzzzzzzzzzzzzzzzzzzzzzzzzzzzzzzzzzzzzzzzzz'')"
  have z: "unhex (of_char CHR ''z'') = None"
    by (simp add: unhex_def digitVal_def)
  have h: "candidate ?req = JStr (js ''ab'' @ js '':'' @ js ''1'' @ js '':'' @ js ''zzzzzzzzzzzzzzzzzzzzzzzzzzzzzzzzzzzzzzzzzzzzzzzzzzzzzzzzzzzzzzzz'')
      \<and> js ''ab'' \<noteq> [] \<and> js ''1'' \<noteq> []
      \<and> colon \<notin> set (js ''ab'') \<and> colon \<notin> set (js ''1'') \<and> colon \<notin> set (js ''zzzzzzzzzzzzzzzzzzzzzzzzzzzzzzzzzzzzzzzzzzzzzzzzzzzzzzzzzzzzzzzz'')
      \<and> length (js ''zzzzzzzzzzzzzzzzzzzzzzzzzzzzzzzzzzzzzzzzzzzzzzzzzzzzzzzzzzzzzzzz'') = 64 \<and> of_char CHR ''z'' \<in> set (js ''zzzzzzzzzzzzzzzzzzzzzzzzzzzzzzzzzzzzzzzzzzzzzzzzzzzzzzzzzzzzzzzz'') \<and> unhex (of_char CHR ''z'') = None"
    by (simp add: candidate_header_request z [simplified] js_def)
  show ?thesis
    using verifyCsrfToken_throws [of ?req "js ''ab''" "js ''1''" "js ''zzzzzzzzzzzzzzzzzzzzzzzzzzzzzzzzzzzzzzzzzzzzzzzzzzzzzzzzzzzzzzzz''" "of_char CHR ''z''" "js ''test-secret''" 1700000000000] h
    by blast
qed

section \<open>Malformed candidates\<close>

text \<open>
  C4 (as stated: anything but exactly three fields is rejected). The issued token of the
  worked example with a fourth field appended splits into four fields and passes.
\<close>

theorem four_fields_accepted:
  "split_js colon (js ''000102030405060708090a0b0c0d0e0f:1700001800000:7d39fe06f38327ed7922f167213e30050374b023fcfffca9aba23f4bc450f294:extra'')
     = [js ''000102030405060708090a0b0c0d0e0f'', js ''1700001800000'',
        js ''7d39fe06f38327ed7922f167213e30050374b023fcfffca9aba23f4bc450f294'', js ''extra'']
   \<and> verifyCsrfToken (js ''test-secret'') 1700000000000
       (header_request (js ''000102030405060708090a0b0c0d0e0f:1700001800000:7d39fe06f38327ed7922f167213e30050374b023fcfffca9aba23f4bc450f294:extra'')) = Next"
proof -
  have t: "js ''000102030405060708090a0b0c0d0e0f:1700001800000:7d39fe06f38327ed7922f167213e30050374b023fcfffca9aba23f4bc450f294:extra'' = js ''000102030405060708090a0b0c0d0e0f'' @ js '':'' @ js ''1700001800000'' @ js '':'' @ js ''7d39fe06f38327ed7922f167213e30050374b023fcfffca9aba23f4bc450f294'' @ js '':'' @ js ''extra''"
    by (simp add: js_join)
  have a: "split_js colon (js ''000102030405060708090a0b0c0d0e0f:1700001800000:7d39fe06f38327ed7922f167213e30050374b023fcfffca9aba23f4bc450f294:extra'') = [js ''000102030405060708090a0b0c0d0e0f'', js ''1700001800000'', js ''7d39fe06f38327ed7922f167213e30050374b023fcfffca9aba23f4bc450f294'', js ''extra'']"
    by (subst t) (simp add: split_js_append split_js_nosep js_colon)
  have b: "verifyCsrfToken (js ''test-secret'') 1700000000000 (header_request (js ''000102030405060708090a0b0c0d0e0f:1700001800000:7d39fe06f38327ed7922f167213e30050374b023fcfffca9aba23f4bc450f294:extra'')) = Next"
    by (simp add: verifyCsrfToken_candidate [OF candidate_header_request] example_verify_more)
  show ?thesis
    using a b by (intro conjI)
qed

text \<open>
  C4 (amended). The verifier answers the generic denial to every candidate that is
  absent or not a string, and to every string whose split at \<open>:\<close> has fewer than three
  fields (fewer than two colons) or an empty field among the first three. Fields after
  the third are ignored: \<open>nonce:expiry:signature:extra\<close> is judged exactly as
  \<open>nonce:expiry:signature\<close>.
\<close>

theorem verifyCsrfToken_rejects_malformed:
  "(\<not> typeof_string (candidate req) \<longrightarrow> verifyCsrfToken k now req = denied)
   \<and> (candidate req = JStr token
       \<and> (length (split_js colon token) < 3 \<or> [] \<in> set (take 3 (split_js colon token))) \<longrightarrow>
       verifyCsrfToken k now req = denied)
   \<and> length (split_js colon token) = Suc (count_list token colon)
   \<and> (n \<noteq> [] \<and> e \<noteq> [] \<and> sg \<noteq> []
       \<and> colon \<notin> set n \<and> colon \<notin> set e \<and> colon \<notin> set sg \<longrightarrow>
       verifyToken k now (n @ js '':'' @ e @ js '':'' @ sg @ js '':'' @ x)
         = verifyToken k now (n @ js '':'' @ e @ js '':'' @ sg))"
proof (intro conjI impI)
  assume "\<not> typeof_string (candidate req)"
  then show "verifyCsrfToken k now req = denied"
    by (rule verifyCsrfToken_not_string)
next
  assume a: "candidate req = JStr token
       \<and> (length (split_js colon token) < 3 \<or> [] \<in> set (take 3 (split_js colon token)))"
  then have "verifyToken k now token = denied"
    using verifyToken_short [of token] verifyToken_empty_field [of token] by blast
  then show "verifyCsrfToken k now req = denied"
    using a by (simp add: verifyCsrfToken_def)
next
  show "length (split_js colon token) = Suc (count_list token colon)"
    by (rule length_split_js)
next
  assume a: "n \<noteq> [] \<and> e \<noteq> [] \<and> sg \<noteq> []
       \<and> colon \<notin> set n \<and> colon \<notin> set e \<and> colon \<notin> set sg"
  have "verifyToken k now (n @ js '':'' @ e @ js '':'' @ sg @ js '':'' @ x) = judge k now n e sg"
    using a by (intro verifyToken_fields_more) simp_all
  moreover have "verifyToken k now (n @ js '':'' @ e @ js '':'' @ sg) = judge k now n e sg"
    using a by (intro verifyToken_fields) simp_all
  ultimately show "verifyToken k now (n @ js '':'' @ e @ js '':'' @ sg @ js '':'' @ x)
         = verifyToken k now (n @ js '':'' @ e @ js '':'' @ sg)"
    by simp
qed

theorem verifyCsrfToken_rejects_malformed_witness:
  "verifyCsrfToken (js ''test-secret'') 1700000000000 \<lparr>headers = Map.empty, body = None\<rparr> = denied
   \<and> verifyCsrfToken (js ''test-secret'') 1700000000000
        \<lparr>headers = Map.empty, body = Some [''_token'' \<mapsto> JNum (Finite 5)]\<rparr> = denied
   \<and> verifyCsrfToken (js ''test-secret'') 1700000000000 (header_request (js ''ab:1'')) = denied
   \<and> verifyCsrfToken (js ''test-secret'') 1700000000000 (header_request (js ''ab::cd'')) = denied
   \<and> verifyToken (js ''test-secret'') 1700000000000 (js ''ab'' @ js '':'' @ js ''1'' @ js '':'' @ js ''cd'' @ js '':'' @ js ''ef'')
       = verifyToken (js ''test-secret'') 1700000000000 (js ''ab'' @ js '':'' @ js ''1'' @ js '':'' @ js ''cd'')"
proof -
  let ?r0 = "\<lparr>headers = Map.empty, body = None\<rparr> :: request"
  let ?r1 = "\<lparr>headers = Map.empty, body = Some [''_token'' \<mapsto> JNum (Finite 5)]\<rparr>"
  have c0: "\<not> typeof_string (candidate ?r0)"
    by (simp add: candidate_def header_def body_field_def or_js_def typeof_string_def)
  have c1: "\<not> typeof_string (candidate ?r1)"
    by (simp add: candidate_def header_def body_field_def or_js_def typeof_string_def)
  have a: "verifyCsrfToken (js ''test-secret'') 1700000000000 ?r0 = denied"
    by (rule verifyCsrfToken_rejects_malformed [of ?r0, THEN conjunct1, THEN mp, OF c0])
  have b: "verifyCsrfToken (js ''test-secret'') 1700000000000 ?r1 = denied"
    by (rule verifyCsrfToken_rejects_malformed [of ?r1, THEN conjunct1, THEN mp, OF c1])
  have s2: "candidate (header_request (js ''ab:1'')) = JStr (js ''ab:1'')
      \<and> (length (split_js colon (js ''ab:1'')) < 3 \<or> [] \<in> set (take 3 (split_js colon (js ''ab:1''))))"
    by (simp add: candidate_header_request js_def)
  have c: "verifyCsrfToken (js ''test-secret'') 1700000000000 (header_request (js ''ab:1'')) = denied"
    by (rule verifyCsrfToken_rejects_malformed
        [of "header_request (js ''ab:1'')" _ _ "js ''ab:1''", THEN conjunct2, THEN conjunct1, THEN mp, OF s2])
  have s3: "candidate (header_request (js ''ab::cd'')) = JStr (js ''ab::cd'')
      \<and> (length (split_js colon (js ''ab::cd'')) < 3 \<or> [] \<in> set (take 3 (split_js colon (js ''ab::cd''))))"
    by (simp add: candidate_header_request js_def)
  have d: "verifyCsrfToken (js ''test-secret'') 1700000000000 (header_request (js ''ab::cd'')) = denied"
    by (rule verifyCsrfToken_rejects_malformed
        [of "header_request (js ''ab::cd'')" _ _ "js ''ab::cd''", THEN conjunct2, THEN conjunct1, THEN mp, OF s3])
  have s4: "js ''ab'' \<noteq> [] \<and> js ''1'' \<noteq> [] \<and> js ''cd'' \<noteq> []
       \<and> colon \<notin> set (js ''ab'') \<and> colon \<notin> set (js ''1'') \<and> colon \<notin> set (js ''cd'')"
    by simp
  have e: "verifyToken (js ''test-secret'') 1700000000000 (js ''ab'' @ js '':'' @ js ''1'' @ js '':'' @ js ''cd'' @ js '':'' @ js ''ef'')
       = verifyToken (js ''test-secret'') 1700000000000 (js ''ab'' @ js '':'' @ js ''1'' @ js '':'' @ js ''cd'')"
    by (rule verifyCsrfToken_rejects_malformed
        [of _ _ _ _ "js ''ab''" "js ''1''" "js ''cd''", THEN conjunct2, THEN conjunct2, THEN conjunct2,
          THEN mp, OF s4])
  show ?thesis
    using a b c d e by (intro conjI)
qed

section \<open>The expiry field\<close>

text \<open>
  C6 (as stated: an expiry that is not a finite number is rejected). The expiry field
  \<open>Infinity\<close> parses to the Number Infinity; with the valid signature of
  \<open>nonce:Infinity\<close> the request passes, here at a clock reading in the year 2100.
\<close>

theorem Infinity_expiry_accepted:
  "Number_js (js ''Infinity'') = Infinity
   \<and> hmacHex (js ''test-secret'') (js ''000102030405060708090a0b0c0d0e0f:Infinity'')
       = js ''4ba3aa4698f34a182b12e349fefd97c9161b6bd0f7eea9a80b2390fce3d01ca1''
   \<and> verifyCsrfToken (js ''test-secret'') 4102444800000
       (header_request (js ''000102030405060708090a0b0c0d0e0f:Infinity:4ba3aa4698f34a182b12e349fefd97c9161b6bd0f7eea9a80b2390fce3d01ca1'')) = Next"
proof -
  have "verifyCsrfToken (js ''test-secret'') 4102444800000 (header_request (js ''000102030405060708090a0b0c0d0e0f:Infinity:4ba3aa4698f34a182b12e349fefd97c9161b6bd0f7eea9a80b2390fce3d01ca1'')) = Next"
    by (simp add: verifyCsrfToken_candidate [OF candidate_header_request] example_verify_Infinity)
  then show ?thesis
    using Number_js_Infinity hmac_example_Infinity by (intro conjI)
qed

text \<open>
  C6 (amended). The verifier never accepts a token whose expiry field parses to NaN
  (it answers the generic denial, unless the signature field raises the exception of
  C2), nor one whose expiry field parses to \<open>-Infinity\<close>. An expiry field that parses to
  \<open>Infinity\<close> is accepted at every clock reading exactly when the signature matches.
\<close>

theorem verifyCsrfToken_expiry:
  "candidate req = JStr (n @ js '':'' @ e @ js '':'' @ sg)
     \<and> n \<noteq> [] \<and> e \<noteq> [] \<and> sg \<noteq> []
     \<and> colon \<notin> set n \<and> colon \<notin> set e \<and> colon \<notin> set sg \<longrightarrow>
     (isNaN (Number_js e) \<longrightarrow>
        verifyCsrfToken k now req \<noteq> Next
        \<and> (length sg \<noteq> 64 \<or> length (hexDecode sg) = 32 \<longrightarrow> verifyCsrfToken k now req = denied))
     \<and> (Number_js e = NegInfinity \<longrightarrow> verifyCsrfToken k now req \<noteq> Next)
     \<and> (Number_js e = Infinity \<longrightarrow>
          (verifyCsrfToken k now req = Next \<longleftrightarrow> map hexLower sg = hmacHex k (n @ js '':'' @ e)))"
proof
  assume a: "candidate req = JStr (n @ js '':'' @ e @ js '':'' @ sg)
     \<and> n \<noteq> [] \<and> e \<noteq> [] \<and> sg \<noteq> []
     \<and> colon \<notin> set n \<and> colon \<notin> set e \<and> colon \<notin> set sg"
  then have "verifyCsrfToken k now req = verifyToken k now (n @ js '':'' @ e @ js '':'' @ sg)"
    by (intro verifyCsrfToken_candidate) simp_all
  also have "\<dots> = judge k now n e sg"
    using a by (intro verifyToken_fields) simp_all
  finally have v: "verifyCsrfToken k now req = judge k now n e sg" .
  have nan: "verifyCsrfToken k now req \<noteq> Next
        \<and> (length sg \<noteq> 64 \<or> length (hexDecode sg) = 32 \<longrightarrow> verifyCsrfToken k now req = denied)"
    if "isNaN (Number_js e)"
    using that by (auto simp: v judge_def denied_def)
  have neg: "verifyCsrfToken k now req \<noteq> Next" if "Number_js e = NegInfinity"
    using that by (simp add: v judge_Next_iff)
  have inf: "verifyCsrfToken k now req = Next \<longleftrightarrow> map hexLower sg = hmacHex k (n @ js '':'' @ e)"
    if "Number_js e = Infinity"
    using that by (simp add: v judge_Next_iff)
  show "(isNaN (Number_js e) \<longrightarrow>
        verifyCsrfToken k now req \<noteq> Next
        \<and> (length sg \<noteq> 64 \<or> length (hexDecode sg) = 32 \<longrightarrow> verifyCsrfToken k now req = denied))
     \<and> (Number_js e = NegInfinity \<longrightarrow> verifyCsrfToken k now req \<noteq> Next)
     \<and> (Number_js e = Infinity \<longrightarrow>
          (verifyCsrfToken k now req = Next \<longleftrightarrow> map hexLower sg = hmacHex k (n @ js '':'' @ e)))"
    using nan neg inf by blast
qed

theorem verifyCsrfToken_expiry_witness:
  "isNaN (Number_js (js ''soon''))
   \<and> verifyCsrfToken (js ''test-secret'') 1700000000000
       (header_request (js ''000102030405060708090a0b0c0d0e0f'' @ js '':'' @ js ''soon'' @ js '':'' @ hmacHex (js ''test-secret'') (js ''000102030405060708090a0b0c0d0e0f'' @ js '':'' @ js ''soon''))) = denied
   \<and> Number_js (js ''-Infinity'') = NegInfinity
   \<and> verifyCsrfToken (js ''test-secret'') 1700000000000
       (header_request (js ''000102030405060708090a0b0c0d0e0f'' @ js '':'' @ js ''-Infinity'' @ js '':'' @ hmacHex (js ''test-secret'') (js ''000102030405060708090a0b0c0d0e0f'' @ js '':'' @ js ''-Infinity''))) \<noteq> Next
   \<and> verifyCsrfToken (js ''test-secret'') 1700000000000
       (header_request (js ''000102030405060708090a0b0c0d0e0f'' @ js '':'' @ js ''Infinity'' @ js '':'' @ hmacHex (js ''test-secret'') (js ''000102030405060708090a0b0c0d0e0f'' @ js '':'' @ js ''Infinity''))) = Next"
proof -
  have shape: "candidate (header_request (js ''000102030405060708090a0b0c0d0e0f'' @ js '':'' @ e @ js '':'' @ hmacHex (js ''test-secret'') (js ''000102030405060708090a0b0c0d0e0f'' @ js '':'' @ e)))
        = JStr (js ''000102030405060708090a0b0c0d0e0f'' @ js '':'' @ e @ js '':'' @ hmacHex (js ''test-secret'') (js ''000102030405060708090a0b0c0d0e0f'' @ js '':'' @ e))
     \<and> js ''000102030405060708090a0b0c0d0e0f'' \<noteq> [] \<and> e \<noteq> [] \<and> hmacHex (js ''test-secret'') (js ''000102030405060708090a0b0c0d0e0f'' @ js '':'' @ e) \<noteq> []
     \<and> colon \<notin> set (js ''000102030405060708090a0b0c0d0e0f'') \<and> colon \<notin> set e
     \<and> colon \<notin> set (hmacHex (js ''test-secret'') (js ''000102030405060708090a0b0c0d0e0f'' @ js '':'' @ e))"
    if "e \<noteq> []" "colon \<notin> set e" for e
  proof -
    have "length (hmacHex (js ''test-secret'') (js ''000102030405060708090a0b0c0d0e0f'' @ js '':'' @ e)) = 64"
      by (rule length_hmacHex)
    then have "hmacHex (js ''test-secret'') (js ''000102030405060708090a0b0c0d0e0f'' @ js '':'' @ e) \<noteq> []"
      by auto
    then show ?thesis
      using that lowerHex_no_colon [OF lowerHex_hmacHex, of "js ''test-secret''" "js ''000102030405060708090a0b0c0d0e0f'' @ js '':'' @ e"]
      by (simp add: candidate_header_request)
  qed
  have sig: "length (hmacHex (js ''test-secret'') p) \<noteq> 64 \<or> length (hexDecode (hmacHex (js ''test-secret'') p)) = 32" for p
    by (simp add: length_hexDecode_lower lowerHex_hmacHex length_hmacHex)
  have low: "map hexLower (hmacHex (js ''test-secret'') p) = hmacHex (js ''test-secret'') p" for p
    by (simp add: map_hexLower_lower lowerHex_hmacHex)
  have n1: "Number_js (js ''soon'') = NaN"
    by code_simp
  then have a: "isNaN (Number_js (js ''soon''))"
    by simp
  have str_soon: "js ''soon'' \<noteq> []" "colon \<notin> set (js ''soon'')"
    by simp_all
  note soon = verifyCsrfToken_expiry
      [of "header_request (js ''000102030405060708090a0b0c0d0e0f'' @ js '':'' @ js ''soon'' @ js '':'' @ hmacHex (js ''test-secret'') (js ''000102030405060708090a0b0c0d0e0f'' @ js '':'' @ js ''soon''))"
        "js ''000102030405060708090a0b0c0d0e0f''" "js ''soon''" "hmacHex (js ''test-secret'') (js ''000102030405060708090a0b0c0d0e0f'' @ js '':'' @ js ''soon'')" "js ''test-secret''" 1700000000000,
        THEN mp, OF shape [of "js ''soon''", OF str_soon]]
  have b: "verifyCsrfToken (js ''test-secret'') 1700000000000
       (header_request (js ''000102030405060708090a0b0c0d0e0f'' @ js '':'' @ js ''soon'' @ js '':'' @ hmacHex (js ''test-secret'') (js ''000102030405060708090a0b0c0d0e0f'' @ js '':'' @ js ''soon''))) = denied"
    by (rule soon [THEN conjunct1, THEN mp, OF a, THEN conjunct2, THEN mp, OF sig])
  have c: "Number_js (js ''-Infinity'') = NegInfinity"
    by code_simp
  have str_minus: "js ''-Infinity'' \<noteq> []" "colon \<notin> set (js ''-Infinity'')"
    by simp_all
  note minus = verifyCsrfToken_expiry
      [of "header_request (js ''000102030405060708090a0b0c0d0e0f'' @ js '':'' @ js ''-Infinity'' @ js '':'' @ hmacHex (js ''test-secret'') (js ''000102030405060708090a0b0c0d0e0f'' @ js '':'' @ js ''-Infinity''))"
        "js ''000102030405060708090a0b0c0d0e0f''" "js ''-Infinity''" "hmacHex (js ''test-secret'') (js ''000102030405060708090a0b0c0d0e0f'' @ js '':'' @ js ''-Infinity'')" "js ''test-secret''" 1700000000000,
        THEN mp, OF shape [of "js ''-Infinity''", OF str_minus]]
  have d: "verifyCsrfToken (js ''test-secret'') 1700000000000
       (header_request (js ''000102030405060708090a0b0c0d0e0f'' @ js '':'' @ js ''-Infinity'' @ js '':'' @ hmacHex (js ''test-secret'') (js ''000102030405060708090a0b0c0d0e0f'' @ js '':'' @ js ''-Infinity''))) \<noteq> Next"
    by (rule minus [THEN conjunct2, THEN conjunct1, THEN mp, OF c])
  have str_plus: "js ''Infinity'' \<noteq> []" "colon \<notin> set (js ''Infinity'')"
    by simp_all
  note plus = verifyCsrfToken_expiry
      [of "header_request (js ''000102030405060708090a0b0c0d0e0f'' @ js '':'' @ js ''Infinity'' @ js '':'' @ hmacHex (js ''test-secret'') (js ''000102030405060708090a0b0c0d0e0f'' @ js '':'' @ js ''Infinity''))"
        "js ''000102030405060708090a0b0c0d0e0f''" "js ''Infinity''" "hmacHex (js ''test-secret'') (js ''000102030405060708090a0b0c0d0e0f'' @ js '':'' @ js ''Infinity'')" "js ''test-secret''" 1700000000000,
        THEN mp, OF shape [of "js ''Infinity''", OF str_plus]]
  have e: "verifyCsrfToken (js ''test-secret'') 1700000000000
       (header_request (js ''000102030405060708090a0b0c0d0e0f'' @ js '':'' @ js ''Infinity'' @ js '':'' @ hmacHex (js ''test-secret'') (js ''000102030405060708090a0b0c0d0e0f'' @ js '':'' @ js ''Infinity''))) = Next"
    by (rule plus [THEN conjunct2, THEN conjunct2, THEN mp, OF Number_js_Infinity, THEN iffD2, OF low])
  show ?thesis
    using a b c d e by (intro conjI)
qed

section \<open>Issuing a token\<close>

text \<open>
  C8. \<open>issueCsrfToken\<close> returns \<open>nonce:expiry:signature\<close>, splitting at \<open>:\<close> into
  exactly these three fields. The nonce is the 32 lower-case hex digits of 16 bytes
  drawn by this call from the platform generator \<open>crypto.randomBytes\<close>: the next 16
  bytes of the generator, which the call leaves advanced past them, so that no byte
  serves two nonces. The 16 bytes are recovered from the nonce, every string of 32
  lower-case hex digits is the nonce of exactly one sequence of 16 bytes, and every
  sequence of 16 bytes is one the generator may yield: the nonce carries the whole 128
  bits of the generator's output. The expiry field is the decimal form of the clock
  reading plus \<open>30 * 60 * 1000\<close> milliseconds (and reads back as exactly that number),
  and the signature is the hex HMAC-SHA256 of \<open>nonce:expiry\<close> under the secret, 64
  lower-case hex digits.
\<close>

theorem issueCsrfToken_shape:
  "fst (issueCsrfToken k g now)
       = toHex (fst (randomBytes 16 g)) @ js '':'' @ numToString (now + 30 * 60 * 1000) @ js '':''
           @ hmacHex k (toHex (fst (randomBytes 16 g)) @ js '':'' @ numToString (now + 30 * 60 * 1000))
   \<and> split_js colon (fst (issueCsrfToken k g now))
         = [toHex (fst (randomBytes 16 g)), numToString (now + 30 * 60 * 1000),
            hmacHex k (toHex (fst (randomBytes 16 g)) @ js '':'' @ numToString (now + 30 * 60 * 1000))]
   \<and> fst (randomBytes 16 g) = map (\<lambda>i. source g (drawn g + i) mod 256) [0..<16]
   \<and> snd (issueCsrfToken k g now) = g\<lparr>drawn := drawn g + 16\<rparr>
   \<and> fst (randomBytes 16 (snd (issueCsrfToken k g now)))
         = map (\<lambda>i. source g (drawn g + 16 + i) mod 256) [0..<16]
   \<and> length (fst (randomBytes 16 g)) = 16 \<and> list_all isByte (fst (randomBytes 16 g))
   \<and> length (toHex (fst (randomBytes 16 g))) = 32 \<and> lowerHex (toHex (fst (randomBytes 16 g)))
   \<and> hexDecode (toHex (fst (randomBytes 16 g))) = fst (randomBytes 16 g)
   \<and> (length s = 32 \<and> lowerHex s \<longrightarrow>
        (\<exists>!bs. length bs = 16 \<and> list_all isByte bs \<and> toHex bs = s))
   \<and> (length bs = 16 \<and> list_all isByte bs \<longrightarrow>
        fst (randomBytes 16 \<lparr>source = (\<lambda>i. bs ! i), drawn = 0\<rparr>) = bs)
   \<and> length (hmacHex k (toHex (fst (randomBytes 16 g)) @ js '':'' @ numToString (now + 30 * 60 * 1000))) = 64
   \<and> lowerHex (hmacHex k (toHex (fst (randomBytes 16 g)) @ js '':'' @ numToString (now + 30 * 60 * 1000)))
   \<and> (\<bar>now\<bar> \<le> 8640000000000000 \<longrightarrow>
          Number_js (numToString (now + 30 * 60 * 1000)) = Finite (of_int now + 1800000))"
proof -
  define rnd where "rnd = fst (randomBytes 16 g)"
  define n where "n = toHex rnd"
  define e where "e = numToString (now + 30 * 60 * 1000)"
  define sg where "sg = hmacHex k (n @ js '':'' @ e)"
  have tok: "fst (issueCsrfToken k g now) = n @ js '':'' @ e @ js '':'' @ sg"
    by (simp add: issueCsrfToken_def Let_def CSRF_TOKEN_EXPIRY_MS_def rnd_def n_def e_def sg_def)
  have r: "length rnd = 16" "list_all isByte rnd"
    by (simp_all add: rnd_def length_randomBytes isByte_randomBytes)
  have src: "rnd = map (\<lambda>i. source g (drawn g + i) mod 256) [0..<16]"
    by (simp add: rnd_def randomBytes_def)
  have adv: "snd (issueCsrfToken k g now) = g\<lparr>drawn := drawn g + 16\<rparr>"
    by (simp add: issueCsrfToken_def Let_def snd_randomBytes)
  have nxt: "fst (randomBytes 16 (snd (issueCsrfToken k g now)))
         = map (\<lambda>i. source g (drawn g + 16 + i) mod 256) [0..<16]"
    by (simp add: adv randomBytes_def)
  have ln: "length n = 32" "lowerHex n" "hexDecode n = rnd"
    using r by (simp_all add: n_def lowerHex_toHex length_toHex hexDecode_toHex)
  have lsg: "length sg = 64" "lowerHex sg"
    by (simp_all add: sg_def lowerHex_hmacHex length_hmacHex)
  have nc: "colon \<notin> set n" "colon \<notin> set e" "colon \<notin> set sg"
    using ln(2) lsg(2) numToString_plain [of "now + 30 * 60 * 1000"]
    by (simp_all add: lowerHex_no_colon e_def)
  have sp: "split_js colon (fst (issueCsrfToken k g now)) = [n, e, sg]"
    using nc by (simp add: tok split_js_append split_js_nosep js_colon)
  have bij: "\<exists>!bs. length bs = 16 \<and> list_all isByte bs \<and> toHex bs = s"
    if "length s = 32 \<and> lowerHex s"
    using that by (intro nonce_bijection) simp_all
  have any: "fst (randomBytes 16 \<lparr>source = (\<lambda>i. bs ! i), drawn = 0\<rparr>) = bs"
    if "length bs = 16 \<and> list_all isByte bs"
    using that randomBytes_any [of bs] by simp
  have num: "Number_js e = Finite (of_int now + 1800000)" if "\<bar>now\<bar> \<le> 8640000000000000"
  proof -
    have "\<bar>now + 1800000\<bar> < (9007199254740992 :: int)"
      using that by linarith
    then have "\<bar>now + 1800000\<bar> < 2 ^ 53"
      by simp
    then have "Number_js (numToString (now + 1800000)) = Finite (of_int (now + 1800000))"
      by (rule Number_js_issued)
    then show ?thesis
      by (simp add: e_def)
  qed
  show ?thesis
    using tok sp src adv nxt r ln lsg bij any num
    unfolding rnd_def [symmetric] n_def [symmetric] e_def [symmetric] sg_def [symmetric]
    by (intro conjI impI)
qed

theorem issueCsrfToken_shape_witness:
  "fst (issueCsrfToken (js ''test-secret'') example_rng 1700000000000) = js ''000102030405060708090a0b0c0d0e0f:1700001800000:7d39fe06f38327ed7922f167213e30050374b023fcfffca9aba23f4bc450f294''
   \<and> split_js colon (fst (issueCsrfToken (js ''test-secret'') example_rng 1700000000000)) = [js ''000102030405060708090a0b0c0d0e0f'', js ''1700001800000'', js ''7d39fe06f38327ed7922f167213e30050374b023fcfffca9aba23f4bc450f294'']
   \<and> drawn (snd (issueCsrfToken (js ''test-secret'') example_rng 1700000000000)) = 16
   \<and> (\<exists>!bs. length bs = 16 \<and> list_all isByte bs \<and> toHex bs = js ''000102030405060708090a0b0c0d0e0f'')
   \<and> fst (randomBytes 16 \<lparr>source = (\<lambda>i. [15, 14, 13, 12, 11, 10, 9, 8, 7, 6, 5, 4, 3, 2, 1, 0] ! i),
                            drawn = 0\<rparr>)
       = [15, 14, 13, 12, 11, 10, 9, 8, 7, 6, 5, 4, 3, 2, 1, 0]
   \<and> Number_js (js ''1700001800000'') = Finite 1700001800000"
proof -
  note s = issueCsrfToken_shape [where k = "js ''test-secret''" and g = example_rng and now = 1700000000000]
  have n: "numToString (1700000000000 + 30 * 60 * 1000) = js ''1700001800000''"
    using numToString_example by simp
  have p: "js ''000102030405060708090a0b0c0d0e0f'' @ js '':'' @ js ''1700001800000'' = js ''000102030405060708090a0b0c0d0e0f:1700001800000''"
    by (simp add: js_join)
  have a: "fst (issueCsrfToken (js ''test-secret'') example_rng 1700000000000) = js ''000102030405060708090a0b0c0d0e0f:1700001800000:7d39fe06f38327ed7922f167213e30050374b023fcfffca9aba23f4bc450f294''"
    using s [THEN conjunct1]
    by (simp only: randomBytes_example toHex_example n p hmac_example) (simp add: js_join)
  have b: "split_js colon (fst (issueCsrfToken (js ''test-secret'') example_rng 1700000000000)) = [js ''000102030405060708090a0b0c0d0e0f'', js ''1700001800000'', js ''7d39fe06f38327ed7922f167213e30050374b023fcfffca9aba23f4bc450f294'']"
    using s [THEN conjunct2, THEN conjunct1]
    by (simp only: randomBytes_example toHex_example n p hmac_example)
  have "snd (issueCsrfToken (js ''test-secret'') example_rng 1700000000000)
      = example_rng\<lparr>drawn := drawn example_rng + 16\<rparr>"
    by (rule s [THEN conjunct2, THEN conjunct2, THEN conjunct2, THEN conjunct1])
  then have c: "drawn (snd (issueCsrfToken (js ''test-secret'') example_rng 1700000000000)) = 16"
    by (simp add: example_rng_def)
  have h1: "length (js ''000102030405060708090a0b0c0d0e0f'') = 32 \<and> lowerHex (js ''000102030405060708090a0b0c0d0e0f'')"
    by (simp add: lowerHex_def isLowerHex_def js_def)
  have d: "\<exists>!bs. length bs = 16 \<and> list_all isByte bs \<and> toHex bs = js ''000102030405060708090a0b0c0d0e0f''"
    by (rule s [where s = "js ''000102030405060708090a0b0c0d0e0f''", THEN conjunct2, THEN conjunct2, THEN conjunct2, THEN conjunct2,
          THEN conjunct2, THEN conjunct2, THEN conjunct2, THEN conjunct2, THEN conjunct2,
          THEN conjunct2, THEN conjunct1, THEN mp, OF h1])
  let ?bs = "[15, 14, 13, 12, 11, 10, 9, 8, 7, 6, 5, 4, 3, 2, 1, 0 :: int]"
  have h2: "length ?bs = 16 \<and> list_all isByte ?bs"
    by (simp add: isByte_def)
  have e: "fst (randomBytes 16 \<lparr>source = (\<lambda>i. ?bs ! i), drawn = 0\<rparr>) = ?bs"
    by (rule s [where bs = ?bs, THEN conjunct2, THEN conjunct2, THEN conjunct2, THEN conjunct2,
          THEN conjunct2, THEN conjunct2, THEN conjunct2, THEN conjunct2, THEN conjunct2,
          THEN conjunct2, THEN conjunct2, THEN conjunct1, THEN mp, OF h2])
  have t: "\<bar>1700000000000 :: int\<bar> \<le> 8640000000000000"
    by simp
  have "Number_js (numToString (1700000000000 + 30 * 60 * 1000)) = Finite (of_int 1700000000000 + 1800000)"
    by (rule s [THEN conjunct2, THEN conjunct2, THEN conjunct2, THEN conjunct2,
          THEN conjunct2, THEN conjunct2, THEN conjunct2, THEN conjunct2, THEN conjunct2,
          THEN conjunct2, THEN conjunct2, THEN conjunct2, THEN conjunct2, THEN conjunct2,
          THEN mp, OF t])
  then have f: "Number_js (js ''1700001800000'') = Finite 1700001800000"
    by (simp only: n) simp
  show ?thesis
    using a b c d e f by (intro conjI)
qed

end
